theory Spec2Isabelle
  imports Main "HOL-Library.Sublist"
begin

section \<open>Python strings\<close>

text \<open>
  A Python \<open>str\<close> is a sequence of Unicode code points, so a string is a list of natural
  numbers here (an Isabelle \<open>char\<close> is a byte and could not hold the code points beyond
  255 that \<open>str.split\<close> treats as whitespace). \<open>ascii\<close> writes an ASCII literal.
\<close>

type_synonym ustr = "nat list"

definition ascii :: "string \<Rightarrow> ustr" where
  "ascii s = map of_char s"

text \<open>
  \<open>str.isspace\<close> for one code point, as CPython's \<open>_PyUnicode_IsWhitespace\<close> lists them:
  U+0009..U+000D, U+001C..U+0020, U+0085, U+00A0, U+1680, U+2000..U+200A, U+2028, U+2029,
  U+202F, U+205F, U+3000.
\<close>

definition isspace :: "nat \<Rightarrow> bool" where
  "isspace c =
     ((9 \<le> c \<and> c \<le> 13) \<or> (28 \<le> c \<and> c \<le> 32) \<or> c = 133 \<or> c = 160 \<or> c = 5760 \<or>
      (8192 \<le> c \<and> c \<le> 8202) \<or> c = 8232 \<or> c = 8233 \<or> c = 8239 \<or> c = 8287 \<or>
      c = 12288)"

text \<open>\<open>s.strip()\<close>: whitespace removed at both ends.\<close>

definition lstrip :: "ustr \<Rightarrow> ustr" where
  "lstrip s = dropWhile isspace s"

definition rstrip :: "ustr \<Rightarrow> ustr" where
  "rstrip s = rev (dropWhile isspace (rev s))"

definition strip :: "ustr \<Rightarrow> ustr" where
  "strip s = rstrip (lstrip s)"

text \<open>
  \<open>s.split()\<close> with no separator: the maximal runs of non-whitespace characters, in
  order. \<open>split_scan cur s\<close> scans \<open>s\<close> from the left; \<open>cur\<close> holds the characters of the
  token being read, last one first.
\<close>

fun split_scan :: "ustr \<Rightarrow> ustr \<Rightarrow> ustr list" where
  "split_scan cur [] = (if cur = [] then [] else [rev cur])"
| "split_scan cur (c # cs) =
     (if isspace c
      then (if cur = [] then split_scan [] cs else rev cur # split_scan [] cs)
      else split_scan (c # cur) cs)"

definition split_whitespace :: "ustr \<Rightarrow> ustr list" where
  "split_whitespace s = split_scan [] s"

text \<open>\<open>s.split(sep)\<close> for a one-character separator: every occurrence separates.\<close>

fun split_on :: "nat \<Rightarrow> ustr \<Rightarrow> ustr list" where
  "split_on sep [] = [[]]"
| "split_on sep (c # cs) =
     (if c = sep then [] # split_on sep cs
      else (case split_on sep cs of
              [] \<Rightarrow> [[c]]
            | p # ps \<Rightarrow> (c # p) # ps))"

text \<open>\<open>sep.join(parts)\<close>.\<close>

fun join :: "ustr \<Rightarrow> ustr list \<Rightarrow> ustr" where
  "join sep [] = []"
| "join sep [p] = p"
| "join sep (p # q # ps) = p @ sep @ join sep (q # ps)"

section \<open>The regular expressions\<close>

text \<open>
  The module compiles three patterns and calls \<open>match\<close> on two of them. \<open>match\<close> tries the
  pattern at the start of the subject only, by backtracking, and a greedy star takes as
  many characters as it can before it gives one back. The patterns use literal
  characters, the dot (any character but the newline, code point 10), a negated
  one-character class, greedy stars of those, and one group.
\<close>

datatype cls = Chr nat | NotChr nat

datatype atom = One cls | Star cls | GroupOpen | GroupClose

fun cls_match :: "cls \<Rightarrow> nat \<Rightarrow> bool" where
  "cls_match (Chr c) x = (x = c)"
| "cls_match (NotChr c) x = (x \<noteq> c)"

definition keep :: "bool \<Rightarrow> nat \<Rightarrow> ustr \<Rightarrow> ustr" where
  "keep g x r = (if g then x # r else r)"

text \<open>
  \<open>re_match p g s\<close>: the pattern \<open>p\<close> against a prefix of \<open>s\<close>; \<open>g\<close> says whether the
  position is inside the group. The result is \<open>None\<close> when no prefix matches, else the
  text of group 1 on the first path the backtracking search finds.
\<close>

fun re_match :: "atom list \<Rightarrow> bool \<Rightarrow> ustr \<Rightarrow> ustr option" where
  "re_match [] g s = Some []"
| "re_match (GroupOpen # p) g s = re_match p True s"
| "re_match (GroupClose # p) g s = re_match p False s"
| "re_match (One c # p) g [] = None"
| "re_match (One c # p) g (x # xs) =
     (if cls_match c x then map_option (keep g x) (re_match p g xs) else None)"
| "re_match (Star c # p) g [] = re_match p g []"
| "re_match (Star c # p) g (x # xs) =
     (case (if cls_match c x then re_match (Star c # p) g xs else None) of
        Some r \<Rightarrow> Some (keep g x r)
      | None \<Rightarrow> re_match p g (x # xs))"

definition lit :: "string \<Rightarrow> atom list" where
  "lit s = map (\<lambda>c. One (Chr (of_char c))) s"

text \<open>\<open>is_meta = re.compile(r"^<.*")\<close>\<close>

definition is_meta :: "atom list" where
  "is_meta = lit ''<'' @ [Star (NotChr 10)]"

text \<open>\<open>eval_segment = re.compile(r"^<seg[^>]*>(.*)</seg>")\<close>\<close>

definition eval_segment :: "atom list" where
  "eval_segment =
     lit ''<seg'' @ [Star (NotChr 62)] @ lit ''>'' @
     [GroupOpen, Star (NotChr 10), GroupClose] @ lit ''</seg>''"

text \<open>\<open>pattern.match(s)\<close>: \<open>None\<close>, or a match object, of which only group 1 is read.\<close>

definition match :: "atom list \<Rightarrow> ustr \<Rightarrow> ustr option" where
  "match p s = re_match p False s"

section \<open>Object identity\<close>

text \<open>
  \<open>read_iwslt\<close> compares its \<open>split\<close> argument with \<open>is\<close>, the identity of objects, not
  with \<open>==\<close>. CPython keeps one interned object for every string constant that looks like
  an identifier, so each occurrence of the literal \<open>"train"\<close> in a program denotes the same
  object; a string built at run time is an object of its own, whatever its characters.
  A string argument whose identity matters is therefore either the interned object of
  its characters or an object allocated at run time, told apart by a number.
\<close>

datatype strobj = Interned ustr | Allocated nat ustr

fun str_value :: "strobj \<Rightarrow> ustr" where
  "str_value (Interned s) = s"
| "str_value (Allocated n s) = s"

definition is_same :: "strobj \<Rightarrow> strobj \<Rightarrow> bool" where
  "is_same a b = (a = b)"

definition literal :: "string \<Rightarrow> strobj" where
  "literal s = Interned (ascii s)"

section \<open>The file system and the errors\<close>

datatype error =
    ValueError ustr
  | UnpackError
  | KeyError ustr
  | FileNotFoundError ustr

text \<open>
  What the module sees of the outside: the working directory, the text files (each
  given by the lines that iterating over the open file yields, decoded), the
  directories, the paths that hold a readable archive, the open file objects (each
  with the lines it has not yet given out) and the extractions done so far (archive,
  destination directory).
\<close>

record world =
  cwd :: ustr
  files :: "ustr \<Rightarrow> ustr list option"
  dirs :: "ustr set"
  tarfiles :: "ustr set"
  handles :: "nat \<Rightarrow> ustr list option"
  next_handle :: nat
  extracted :: "(ustr \<times> ustr) list"

text \<open>
  Code of \<open>os.path\<close> for POSIX: \<open>isabs\<close>, \<open>join\<close> and \<open>abspath\<close>. \<open>normpath\<close> is left as a
  parameter, and so is \<open>download_if_not_there\<close>, which the module imports from
  \<open>data_util\<close>: it takes the file name, the URL, the local folder, the \<open>force\<close> flag and
  the local file name, and says whether it downloaded.
\<close>

record env =
  normpath :: "ustr \<Rightarrow> ustr"
  download_if_not_there ::
    "ustr \<Rightarrow> ustr \<Rightarrow> ustr \<Rightarrow> bool \<Rightarrow> ustr \<Rightarrow> world \<Rightarrow> (error + bool) \<times> world"

definition isabs :: "ustr \<Rightarrow> bool" where
  "isabs p = (case p of [] \<Rightarrow> False | c # cs \<Rightarrow> c = 47)"

fun path_join :: "ustr \<Rightarrow> ustr list \<Rightarrow> ustr" where
  "path_join a [] = a"
| "path_join a (b # bs) =
     path_join
       (if isabs b then b
        else if a = [] then b
        else if last a = 47 then a @ b
        else a @ [47] @ b) bs"

text \<open>How the operating system reads a path: a relative one starts at the working directory.\<close>

definition resolve :: "world \<Rightarrow> ustr \<Rightarrow> ustr" where
  "resolve w p = (if isabs p then p else path_join (cwd w) [p])"

definition abspath :: "env \<Rightarrow> world \<Rightarrow> ustr \<Rightarrow> ustr" where
  "abspath e w p = normpath e (resolve w p)"

definition isdir :: "world \<Rightarrow> ustr \<Rightarrow> bool" where
  "isdir w p = (resolve w p \<in> dirs w)"

definition mkdir :: "ustr \<Rightarrow> world \<Rightarrow> world" where
  "mkdir p w = w\<lparr>dirs := insert (resolve w p) (dirs w)\<rparr>"

text \<open>\<open>open(p, encoding="utf-8")\<close>: a new file object at the start of the file.\<close>

definition open_file :: "ustr \<Rightarrow> world \<Rightarrow> (error + nat) \<times> world" where
  "open_file p w =
     (case files w (resolve w p) of
        None \<Rightarrow> (Inl (FileNotFoundError p), w)
      | Some ls \<Rightarrow>
          (Inr (next_handle w),
           w\<lparr>handles := (handles w)(next_handle w \<mapsto> ls),
             next_handle := Suc (next_handle w)\<rparr>))"

text \<open>\<open>f.close()\<close>\<close>

definition close_file :: "nat \<Rightarrow> world \<Rightarrow> world" where
  "close_file h w = w\<lparr>handles := (handles w)(h := None)\<rparr>"

text \<open>\<open>with tarfile.open(archive) as tar: tar.extractall(directory)\<close>\<close>

definition extractall :: "ustr \<Rightarrow> ustr \<Rightarrow> world \<Rightarrow> (error + unit) \<times> world" where
  "extractall archive directory w =
     (if resolve w archive \<in> tarfiles w
      then (Inr (), w\<lparr>extracted := extracted w @ [(resolve w archive, resolve w directory)]\<rparr>)
      else (Inl (FileNotFoundError archive), w))"

section \<open>The module\<close>

definition iwslt_url :: ustr where
  "iwslt_url = ascii ''https://wit3.fbk.eu/archive''"

text \<open>The dictionary \<open>supported\<close>, in the order of its keys.\<close>

definition supported :: "(ustr \<times> (ustr \<times> ustr) list) list" where
  "supported =
     [(ascii ''2016.de-en'',
       [(ascii ''train'', ascii ''train.tags.de-en''),
        (ascii ''dev'', ascii ''IWSLT16.TED.tst2013.de-en''),
        (ascii ''test'', ascii ''IWSLT16.TED.tst2014.de-en'')]),
      (ascii ''2016.fr-en'',
       [(ascii ''train'', ascii ''train.tags.fr-en''),
        (ascii ''dev'', ascii ''IWSLT16.TED.tst2013.fr-en''),
        (ascii ''test'', ascii ''IWSLT16.TED.tst2014.fr-en'')])]"

definition supported_string :: ustr where
  "supported_string = join (ascii '', '') (map fst supported)"

text \<open>The key \<open>f"{year}.{langpair}"\<close>.\<close>

definition dataset_key :: "ustr \<Rightarrow> ustr \<Rightarrow> ustr" where
  "dataset_key year langpair = year @ ascii ''.'' @ langpair"

definition local_dir :: "ustr \<Rightarrow> ustr \<Rightarrow> ustr" where
  "local_dir year langpair = ascii ''iwslt'' @ year @ ascii ''.'' @ langpair"

subsection \<open>\<open>download_iwslt\<close>\<close>

definition download_iwslt ::
  "env \<Rightarrow> ustr \<Rightarrow> ustr \<Rightarrow> ustr \<Rightarrow> bool \<Rightarrow> world \<Rightarrow> (error + unit) \<times> world" where
  "download_iwslt e path year langpair force w =
     (case split_on 45 langpair of
        [src, tgt] \<Rightarrow>
          (let langpair_url =
                 iwslt_url @ ascii ''/'' @ year @ ascii ''-01//texts/'' @ src @ ascii ''/'' @
                 tgt @ ascii ''/'';
               langpair_file = langpair @ ascii ''.tgz'';
               local_file = ascii ''iwslt'' @ year @ ascii ''.'' @ langpair @ ascii ''.tgz''
           in (case download_if_not_there e langpair_file langpair_url path force local_file w of
                 (Inl err, w1) \<Rightarrow> (Inl err, w1)
               | (Inr downloaded, w1) \<Rightarrow>
                   if downloaded
                   then (let abs_filename = path_join (abspath e w1 path) [local_file];
                             directory = local_dir year langpair;
                             w2 = (if isdir w1 directory then w1 else mkdir directory w1)
                         in extractall abs_filename directory w2)
                   else (Inr (), w1)))
      | _ \<Rightarrow> (Inl UnpackError, w))"

subsection \<open>\<open>read_iwslt\<close>\<close>

text \<open>
  One pass through the body of the \<open>for\<close> loop, for one pair of lines: \<open>None\<close> is
  \<open>continue\<close>, \<open>Some\<close> the pair the \<open>yield\<close> gives out.
\<close>

definition append_eos :: "ustr option \<Rightarrow> ustr list \<Rightarrow> ustr list" where
  "append_eos eos l = (case eos of None \<Rightarrow> l | Some tok \<Rightarrow> l @ [tok])"

definition tokens :: "ustr option \<Rightarrow> ustr \<Rightarrow> ustr list" where
  "tokens eos l = append_eos eos (split_whitespace (strip l))"

definition loop_body ::
  "bool \<Rightarrow> ustr option \<Rightarrow> ustr \<Rightarrow> ustr \<Rightarrow> (ustr list \<times> ustr list) option" where
  "loop_body is_train eos src_l tgt_l =
     (if is_train \<and> match is_meta src_l \<noteq> None \<and> match is_meta tgt_l \<noteq> None then None
      else if is_train then Some (tokens eos src_l, tokens eos tgt_l)
      else (case match eval_segment src_l of
              None \<Rightarrow> None
            | Some src_seg \<Rightarrow>
                (case match eval_segment tgt_l of
                   None \<Rightarrow> None
                 | Some tgt_seg \<Rightarrow> Some (tokens eos src_seg, tokens eos tgt_seg))))"

text \<open>
  The loop \<open>for src_l, tgt_l in zip(src_obj, tgt_obj)\<close> from where it stands to its next
  \<open>yield\<close>, or to its end. \<open>zip\<close> asks the source file for a line first and stops if there
  is none; only then it asks the target file. The result also holds the lines left in
  each file.
\<close>

fun scan ::
  "bool \<Rightarrow> ustr option \<Rightarrow> ustr list \<Rightarrow> ustr list \<Rightarrow>
   (ustr list \<times> ustr list) option \<times> ustr list \<times> ustr list" where
  "scan is_train eos [] ts = (None, [], ts)"
| "scan is_train eos (s # ss) [] = (None, ss, [])"
| "scan is_train eos (s # ss) (t # ts) =
     (case loop_body is_train eos s t of
        None \<Rightarrow> scan is_train eos ss ts
      | Some pair \<Rightarrow> (Some pair, ss, ts))"

text \<open>
  \<open>read_iwslt\<close> is a generator function: the call runs none of its body and returns a
  generator, which is created, suspended at the \<open>yield\<close> (with the locals \<open>is_train\<close>, \<open>eos\<close>,
  \<open>src_obj\<close> and \<open>tgt_obj\<close> that the rest of the body reads) or finished.
\<close>

datatype gen =
    Created strobj ustr ustr ustr "ustr option"
  | Suspended bool "ustr option" nat nat
  | Finished

definition read_iwslt :: "strobj \<Rightarrow> ustr \<Rightarrow> ustr \<Rightarrow> ustr \<Rightarrow> ustr option \<Rightarrow> gen" where
  "read_iwslt split path year langpair eos = Created split path year langpair eos"

text \<open>
  The names of the two files of a split, as lines 95 to 105 build them: \<open>split_file\<close> is
  the name for one language, \<open>file_names\<close> the pair, or the error raised on the way.
\<close>

definition split_file ::
  "env \<Rightarrow> world \<Rightarrow> ustr \<Rightarrow> ustr \<Rightarrow> ustr \<Rightarrow> ustr \<Rightarrow> bool \<Rightarrow> ustr \<Rightarrow> ustr" where
  "split_file e w path year langpair file_prefix is_train lang =
     (let directory = local_dir year langpair;
          root_path = path_join (abspath e w path) [directory];
          name = path_join root_path [langpair, file_prefix @ ascii ''.'' @ lang]
      in if is_train then name else name @ ascii ''.xml'')"

definition file_names ::
  "env \<Rightarrow> world \<Rightarrow> strobj \<Rightarrow> bool \<Rightarrow> ustr \<Rightarrow> ustr \<Rightarrow> ustr \<Rightarrow> error + ustr \<times> ustr" where
  "file_names e w split is_train path year langpair =
     (case split_on 45 langpair of
        [src, tgt] \<Rightarrow>
          (case map_of supported (dataset_key year langpair) of
             None \<Rightarrow> Inl (KeyError (dataset_key year langpair))
           | Some names \<Rightarrow>
               (case map_of names (str_value split) of
                  None \<Rightarrow> Inl (KeyError (str_value split))
                | Some file_prefix \<Rightarrow>
                    Inr (split_file e w path year langpair file_prefix is_train src,
                         split_file e w path year langpair file_prefix is_train tgt)))
      | _ \<Rightarrow> Inl UnpackError)"

text \<open>
  The body from its first line to the \<open>for\<close> loop: the check of \<open>split\<close>, the file names and
  the two calls of \<open>open\<close>.
\<close>

definition read_iwslt_open ::
  "env \<Rightarrow> strobj \<Rightarrow> ustr \<Rightarrow> ustr \<Rightarrow> ustr \<Rightarrow> world \<Rightarrow> (error + bool \<times> nat \<times> nat) \<times> world" where
  "read_iwslt_open e split path year langpair w =
     (if is_same split (literal ''test'') \<or> is_same split (literal ''dev'') \<or>
         is_same split (literal ''train'')
      then
        (let is_train = is_same split (literal ''train'') in
         case file_names e w split is_train path year langpair of
           Inl err \<Rightarrow> (Inl err, w)
         | Inr (src_file, tgt_file) \<Rightarrow>
             (case open_file src_file w of
                (Inl err, w1) \<Rightarrow> (Inl err, w1)
              | (Inr src_obj, w1) \<Rightarrow>
                  (case open_file tgt_file w1 of
                     (Inl err, w2) \<Rightarrow> (Inl err, w2)
                   | (Inr tgt_obj, w2) \<Rightarrow> (Inr (is_train, src_obj, tgt_obj), w2))))
      else (Inl (ValueError (ascii ''split must be \"train\", \"dev\" or \"test\"'')), w))"

text \<open>
  The loop resumed, up to the next \<open>yield\<close> or through the two calls of \<open>close\<close> that
  follow the loop. Reading from a file object that is not open raises \<open>ValueError\<close>.
\<close>

definition resume ::
  "bool \<Rightarrow> ustr option \<Rightarrow> nat \<Rightarrow> nat \<Rightarrow> world \<Rightarrow>
   (error + (ustr list \<times> ustr list) option) \<times> gen \<times> world" where
  "resume is_train eos src_obj tgt_obj w =
     (case handles w src_obj of
        None \<Rightarrow> (Inl (ValueError (ascii ''I/O operation on closed file.'')), Finished, w)
      | Some ss \<Rightarrow>
          (case handles w tgt_obj of
             None \<Rightarrow> (Inl (ValueError (ascii ''I/O operation on closed file.'')), Finished, w)
           | Some ts \<Rightarrow>
               (case scan is_train eos ss ts of
                  (Some pair, ss', ts') \<Rightarrow>
                    (Inr (Some pair), Suspended is_train eos src_obj tgt_obj,
                     w\<lparr>handles := (handles w)(src_obj \<mapsto> ss', tgt_obj \<mapsto> ts')\<rparr>)
                | (None, ss', ts') \<Rightarrow>
                    (Inr None, Finished,
                     close_file tgt_obj (close_file src_obj
                       (w\<lparr>handles := (handles w)(src_obj \<mapsto> ss', tgt_obj \<mapsto> ts')\<rparr>))))))"

text \<open>
  \<open>next(g)\<close>: an error raised, \<open>Some\<close> pair yielded, or \<open>None\<close> for \<open>StopIteration\<close>; with the
  generator and the world afterwards.
\<close>

definition gen_next ::
  "env \<Rightarrow> gen \<Rightarrow> world \<Rightarrow> (error + (ustr list \<times> ustr list) option) \<times> gen \<times> world" where
  "gen_next e g w =
     (case g of
        Created split path year langpair eos \<Rightarrow>
          (case read_iwslt_open e split path year langpair w of
             (Inl err, w1) \<Rightarrow> (Inl err, Finished, w1)
           | (Inr (is_train, src_obj, tgt_obj), w1) \<Rightarrow> resume is_train eos src_obj tgt_obj w1)
      | Suspended is_train eos src_obj tgt_obj \<Rightarrow> resume is_train eos src_obj tgt_obj w
      | Finished \<Rightarrow> (Inr None, Finished, w))"

text \<open>
  \<open>g.close()\<close>, and what happens to a generator its consumer drops: \<open>GeneratorExit\<close> is
  raised at the \<open>yield\<close>, the body handles nothing, and the generator is finished without
  running another line of it.
\<close>

definition gen_close :: "gen \<Rightarrow> world \<Rightarrow> gen \<times> world" where
  "gen_close g w = (Finished, w)"

subsection \<open>\<open>load_iwslt\<close>\<close>

text \<open>
  \<open>list(g)\<close> calls \<open>next\<close> until the generator stops or raises. It ends because a
  suspended generator has fewer lines left in its files after every \<open>yield\<close>.
\<close>

fun rank :: "gen \<Rightarrow> nat" where
  "rank (Created split path year langpair eos) = 2"
| "rank (Suspended is_train eos src_obj tgt_obj) = 1"
| "rank Finished = 0"

fun pending :: "gen \<Rightarrow> world \<Rightarrow> nat" where
  "pending (Suspended is_train eos src_obj tgt_obj) w =
     (case handles w tgt_obj of None \<Rightarrow> 0 | Some ts \<Rightarrow> length ts)"
| "pending g w = 0"

lemma scan_yield_shorter:
  "scan is_train eos ss ts = (Some pair, ss', ts') \<Longrightarrow>
   length ss' < length ss \<and> length ts' < length ts"
proof (induction is_train eos ss ts rule: scan.induct)
  case (3 is_train eos s ss t ts)
  then show ?case
    by (cases "loop_body is_train eos s t") (auto split: if_splits)
qed simp_all

lemma resume_yield:
  assumes "resume is_train eos src_obj tgt_obj w = (Inr (Some pair), g', w')"
  shows "g' = Suspended is_train eos src_obj tgt_obj \<and> pending g' w' < pending g' w"
  using assms
  by (auto simp: resume_def split: option.splits prod.splits dest: scan_yield_shorter)

lemma gen_next_decreases:
  assumes "gen_next e g w = (Inr (Some pair), g', w')"
  shows "rank g' < rank g \<or> (rank g' = rank g \<and> pending g' w' < pending g w)"
proof (cases g)
  case (Created split path year langpair eos)
  with assms show ?thesis
    by (auto simp: gen_next_def split: prod.splits sum.splits dest: resume_yield)
next
  case (Suspended is_train eos src_obj tgt_obj)
  with assms show ?thesis
    using resume_yield[of is_train eos src_obj tgt_obj w pair g' w']
    by (auto simp: gen_next_def)
next
  case Finished
  with assms show ?thesis
    by (simp add: gen_next_def)
qed

function drain ::
  "env \<Rightarrow> gen \<Rightarrow> world \<Rightarrow> (error + (ustr list \<times> ustr list) list) \<times> world" where
  "drain e g w =
     (case gen_next e g w of
        (Inl err, g', w') \<Rightarrow> (Inl err, w')
      | (Inr None, g', w') \<Rightarrow> (Inr [], w')
      | (Inr (Some pair), g', w') \<Rightarrow>
          (case drain e g' w' of
             (Inl err, w'') \<Rightarrow> (Inl err, w'')
           | (Inr pairs, w'') \<Rightarrow> (Inr (pair # pairs), w'')))"
  by pat_completeness auto
termination
proof (relation "measures [\<lambda>(e, g, w). rank g, \<lambda>(e, g, w). pending g w]", goal_cases)
  case 1
  show ?case by simp
next
  case (2 e g w r rest x2 pair g' w')
  then have "gen_next e g w = (Inr (Some pair), g', w')"
    by simp
  from gen_next_decreases[OF this] show ?case
    by auto
qed

text \<open>
  The loop over \<open>["train", "dev", "test"]\<close>, with the list \<open>splits\<close> it appends to, and
  the function around it. The result stands for the tuple \<open>tuple(splits)\<close>.
\<close>

fun load_loop ::
  "env \<Rightarrow> strobj list \<Rightarrow> ustr \<Rightarrow> ustr \<Rightarrow> ustr \<Rightarrow> ustr option \<Rightarrow>
   (ustr list list \<times> ustr list list) list \<Rightarrow> world \<Rightarrow>
   (error + (ustr list list \<times> ustr list list) list) \<times> world" where
  "load_loop e [] path year langpair eos splits w = (Inr splits, w)"
| "load_loop e (split # rest) path year langpair eos splits w =
     (case drain e (read_iwslt split path year langpair eos) w of
        (Inl err, w') \<Rightarrow> (Inl err, w')
      | (Inr data, w') \<Rightarrow>
          (let src_data = map fst data;
               tgt_data = map snd data
           in load_loop e rest path year langpair eos (splits @ [(src_data, tgt_data)]) w'))"

definition load_iwslt ::
  "env \<Rightarrow> ustr \<Rightarrow> ustr \<Rightarrow> ustr \<Rightarrow> ustr option \<Rightarrow> world \<Rightarrow>
   (error + (ustr list list \<times> ustr list list) list) \<times> world" where
  "load_iwslt e path year langpair eos w =
     (if map_of supported (dataset_key year langpair) = None
      then (Inl (ValueError
                  (dataset_key year langpair @ ascii '' not supported. '' @
                   ascii ''Supported datasets are '' @ supported_string)), w)
      else load_loop e [literal ''train'', literal ''dev'', literal ''test'']
             path year langpair eos [] w)"

section \<open>What a reading yields\<close>

text \<open>
  The notions the properties below are stated with. \<open>pairs_of\<close> is the loop body applied
  to the two files' lines taken in lockstep; \<open>split_lines\<close> are the lines of the two files
  of a split, when the names can be built and both files exist; \<open>after_read\<close> is the world
  after a reading that opened two files and closed them; \<open>unzip\<close> is the pair of lists
  \<open>load_iwslt\<close> makes of the pairs of a split.
\<close>

definition pairs_of ::
  "bool \<Rightarrow> ustr option \<Rightarrow> ustr list \<Rightarrow> ustr list \<Rightarrow> (ustr list \<times> ustr list) list" where
  "pairs_of is_train eos ss ts =
     List.map_filter (\<lambda>(s, t). loop_body is_train eos s t) (zip ss ts)"

definition split_lines ::
  "env \<Rightarrow> world \<Rightarrow> strobj \<Rightarrow> ustr \<Rightarrow> ustr \<Rightarrow> ustr \<Rightarrow> (ustr list \<times> ustr list) option" where
  "split_lines e w split path year langpair =
     (case file_names e w split (is_same split (literal ''train'')) path year langpair of
        Inl err \<Rightarrow> None
      | Inr (src_file, tgt_file) \<Rightarrow>
          (case files w (resolve w src_file) of
             None \<Rightarrow> None
           | Some ss \<Rightarrow>
               (case files w (resolve w tgt_file) of
                  None \<Rightarrow> None
                | Some ts \<Rightarrow> Some (ss, ts))))"

definition closed_both :: "nat \<Rightarrow> nat \<Rightarrow> world \<Rightarrow> world" where
  "closed_both a b w = w\<lparr>handles := (handles w)(a := None, b := None)\<rparr>"

definition after_read :: "world \<Rightarrow> world" where
  "after_read w =
     w\<lparr>handles := (handles w)(next_handle w := None, Suc (next_handle w) := None),
       next_handle := Suc (Suc (next_handle w))\<rparr>"

definition unzip :: "(ustr list \<times> ustr list) list \<Rightarrow> ustr list list \<times> ustr list list" where
  "unzip data = (map fst data, map snd data)"

text \<open>The end-of-sequence token a generator holds: its argument, then its local.\<close>

fun gen_eos :: "gen \<Rightarrow> ustr option" where
  "gen_eos (Created split path year langpair eos) = eos"
| "gen_eos (Suspended is_train eos src_obj tgt_obj) = eos"
| "gen_eos Finished = None"

text \<open>Both lines of a pair begin with \<open><\<close>.\<close>

definition both_meta :: "ustr \<Rightarrow> ustr \<Rightarrow> bool" where
  "both_meta src_l tgt_l = (prefix (ascii ''<'') src_l \<and> prefix (ascii ''<'') tgt_l)"

text \<open>The pattern of a literal string, from its code points.\<close>

definition lits :: "ustr \<Rightarrow> atom list" where
  "lits cs = map (\<lambda>c. One (Chr c)) cs"

section \<open>A small corpus\<close>

text \<open>
  A file system with the six files of \<open>2016.de-en\<close> under \<open>/data\<close>, a working directory
  elsewhere, and an environment whose \<open>normpath\<close> changes nothing and whose
  \<open>download_if_not_there\<close> always downloads. The concrete instances below are evaluated
  on it.
\<close>

definition train_de :: "ustr list" where
  "train_de =
     [ascii ''<url>x</url>\<newline>'', ascii ''Hallo Welt\<newline>'', ascii ''<b>\<newline>'',
      ascii '' \<newline>'']"

definition train_en :: "ustr list" where
  "train_en =
     [ascii ''<url>x</url>\<newline>'', ascii ''Hello world\<newline>'', ascii ''b\<newline>'',
      ascii ''ok\<newline>'']"

definition dev_de :: "ustr list" where
  "dev_de =
     [ascii ''<doc>\<newline>'', ascii ''<seg id=\"1\"> Guten Tag </seg>\<newline>'',
      ascii ''</doc>\<newline>'']"

definition dev_en :: "ustr list" where
  "dev_en =
     [ascii ''<doc>\<newline>'', ascii ''<seg id=\"1\"> Good day </seg>\<newline>'',
      ascii ''</doc>\<newline>'']"

definition test_de :: "ustr list" where
  "test_de = [ascii ''<seg id=\"1\">ja</seg>\<newline>'']"

definition test_en :: "ustr list" where
  "test_en =
     [ascii ''<seg id=\"1\">yes</seg>\<newline>'', ascii ''<seg id=\"2\">no</seg>\<newline>'']"

definition sample_env :: env where
  "sample_env =
     \<lparr>normpath = (\<lambda>p. p),
      download_if_not_there =
        (\<lambda>file url path force local_file w.
           (Inr True,
            w\<lparr>tarfiles := insert (resolve w (path_join path [local_file])) (tarfiles w)\<rparr>))\<rparr>"

definition sample_world :: world where
  "sample_world =
     \<lparr>cwd = ascii ''/home/u'',
      files =
        [ascii ''/data/iwslt2016.de-en/de-en/train.tags.de-en.de'' \<mapsto> train_de,
         ascii ''/data/iwslt2016.de-en/de-en/train.tags.de-en.en'' \<mapsto> train_en,
         ascii ''/data/iwslt2016.de-en/de-en/IWSLT16.TED.tst2013.de-en.de.xml'' \<mapsto> dev_de,
         ascii ''/data/iwslt2016.de-en/de-en/IWSLT16.TED.tst2013.de-en.en.xml'' \<mapsto> dev_en,
         ascii ''/data/iwslt2016.de-en/de-en/IWSLT16.TED.tst2014.de-en.de.xml'' \<mapsto> test_de,
         ascii ''/data/iwslt2016.de-en/de-en/IWSLT16.TED.tst2014.de-en.en.xml'' \<mapsto> test_en],
      dirs = {}, tarfiles = {}, handles = Map.empty, next_handle = 0, extracted = []\<rparr>"

text \<open>The same file system without the English train file.\<close>

definition no_target_world :: world where
  "no_target_world =
     sample_world\<lparr>files :=
       (files sample_world)
         (ascii ''/data/iwslt2016.de-en/de-en/train.tags.de-en.en'' := None)\<rparr>"

section \<open>Lemmas\<close>

declare drain.simps [simp del]

lemmas sample_defs =
  train_de_def train_en_def dev_de_def dev_en_def test_de_def test_en_def
  sample_env_def sample_world_def

lemmas path_defs =
  split_lines_def file_names_def split_file_def literal_def is_same_def supported_def
  dataset_key_def local_dir_def abspath_def resolve_def isabs_def ascii_def

lemmas body_defs =
  pairs_of_def loop_body_def match_def is_meta_def eval_segment_def lit_def keep_def
  tokens_def append_eos_def strip_def lstrip_def rstrip_def isspace_def split_whitespace_def
  ascii_def List.map_filter_simps

lemma supported_keys: "fst ` set supported = {ascii ''2016.de-en'', ascii ''2016.fr-en''}"
  by (simp add: supported_def)

lemma supported_string_eq: "supported_string = ascii ''2016.de-en, 2016.fr-en''"
  by (simp add: supported_string_def supported_def ascii_def)

lemma pairs_of_Nil [simp]:
  "pairs_of is_train eos [] ts = []" "pairs_of is_train eos ss [] = []"
  by (simp_all add: pairs_of_def List.map_filter_simps)

lemma pairs_of_Cons:
  "pairs_of is_train eos (s # ss) (t # ts) =
     (case loop_body is_train eos s t of
        None \<Rightarrow> pairs_of is_train eos ss ts
      | Some pair \<Rightarrow> pair # pairs_of is_train eos ss ts)"
  by (simp add: pairs_of_def List.map_filter_simps split: option.split)

lemma scan_pairs_of:
  "scan is_train eos ss ts = (r, ss', ts') \<Longrightarrow>
   pairs_of is_train eos ss ts =
     (case r of None \<Rightarrow> [] | Some pair \<Rightarrow> pair # pairs_of is_train eos ss' ts')"
proof (induction is_train eos ss ts rule: scan.induct)
  case (3 is_train eos s ss t ts)
  show ?case
  proof (cases "loop_body is_train eos s t")
    case None
    with 3 show ?thesis by (simp add: pairs_of_Cons)
  next
    case (Some pair)
    with "3.prems" have "r = Some pair" "ss' = ss" "ts' = ts"
      by simp_all
    with Some show ?thesis by (simp add: pairs_of_Cons)
  qed
qed auto

lemma closed_handles:
  "((m(a \<mapsto> x, b \<mapsto> y))(a := None, b := None)) = m(a := None, b := None)"
  by (rule ext) simp

lemma drain_suspended:
  assumes "handles w src_obj = Some ss" "handles w tgt_obj = Some ts" "src_obj \<noteq> tgt_obj"
  shows "drain e (Suspended is_train eos src_obj tgt_obj) w =
           (Inr (pairs_of is_train eos ss ts), closed_both src_obj tgt_obj w)"
  using assms
proof (induction "length ss" arbitrary: ss ts w rule: less_induct)
  case less
  obtain r ss' ts' where sc: "scan is_train eos ss ts = (r, ss', ts')"
    by (cases "scan is_train eos ss ts") auto
  show ?case
  proof (cases r)
    case None
    with sc less.prems show ?thesis
      using scan_pairs_of[OF sc]
      by (subst drain.simps)
         (simp add: gen_next_def resume_def close_file_def closed_both_def closed_handles)
  next
    case (Some pair)
    let ?w1 = "w\<lparr>handles := (handles w)(src_obj \<mapsto> ss', tgt_obj \<mapsto> ts')\<rparr>"
    from sc Some have "length ss' < length ss"
      using scan_yield_shorter by blast
    moreover have "handles ?w1 src_obj = Some ss'" "handles ?w1 tgt_obj = Some ts'"
      using less.prems by simp_all
    ultimately have ih: "drain e (Suspended is_train eos src_obj tgt_obj) ?w1 =
        (Inr (pairs_of is_train eos ss' ts'), closed_both src_obj tgt_obj ?w1)"
      using less.hyps less.prems(3) by blast
    have "closed_both src_obj tgt_obj ?w1 = closed_both src_obj tgt_obj w"
      by (simp add: closed_both_def closed_handles)
    with ih sc Some less.prems show ?thesis
      using scan_pairs_of[OF sc]
      by (subst drain.simps) (simp add: gen_next_def resume_def)
  qed
qed


lemma drain_cong:
  "gen_next e g w = gen_next e g' w' \<Longrightarrow> drain e g w = drain e g' w'"
  by (subst drain.simps, subst (2) drain.simps) simp

lemma resolve_same: "cwd w' = cwd w \<Longrightarrow> resolve w' p = resolve w p"
  by (simp add: resolve_def)

lemma file_names_same:
  "cwd w' = cwd w \<Longrightarrow>
   file_names e w' split is_train path year langpair =
   file_names e w split is_train path year langpair"
  by (simp add: file_names_def split_file_def abspath_def resolve_same[of w' w]
      split: list.split option.split)

lemma split_lines_same:
  "cwd w' = cwd w \<Longrightarrow> files w' = files w \<Longrightarrow>
   split_lines e w' split path year langpair = split_lines e w split path year langpair"
  by (simp add: split_lines_def file_names_same[of w' w] resolve_same[of w' w]
      split: sum.split prod.split option.split)

lemma after_read_same [simp]:
  "cwd (after_read w) = cwd w" "files (after_read w) = files w"
  by (simp_all add: after_read_def)

lemma split_lines_supported:
  "split_lines e w split path year langpair = Some (ss, ts) \<Longrightarrow>
   map_of supported (dataset_key year langpair) \<noteq> None"
  by (auto simp: split_lines_def file_names_def split: sum.splits list.splits option.splits)

lemma drain_read_iwslt:
  assumes known: "split \<in> {literal ''train'', literal ''dev'', literal ''test''}"
    and lines: "split_lines e w split path year langpair = Some (ss, ts)"
  shows "drain e (read_iwslt split path year langpair eos) w =
           (Inr (pairs_of (split = literal ''train'') eos ss ts), after_read w)"
proof -
  let ?n = "next_handle w"
  let ?w2 = "w\<lparr>handles := (handles w)(?n \<mapsto> ss, Suc ?n \<mapsto> ts), next_handle := Suc (Suc ?n)\<rparr>"
  from lines obtain src_file tgt_file where
    names: "file_names e w split (is_same split (literal ''train'')) path year langpair =
              Inr (src_file, tgt_file)"
    and src: "files w (resolve w src_file) = Some ss"
    and tgt: "files w (resolve w tgt_file) = Some ts"
    by (auto simp: split_lines_def split: sum.splits option.splits)
  from known have ok: "is_same split (literal ''test'') \<or> is_same split (literal ''dev'') \<or>
      is_same split (literal ''train'')"
    by (auto simp: is_same_def)
  let ?w1 = "w\<lparr>handles := (handles w)(?n \<mapsto> ss), next_handle := Suc ?n\<rparr>"
  have o1: "open_file src_file w = (Inr ?n, ?w1)"
    using src by (simp add: open_file_def)
  have "files ?w1 (resolve ?w1 tgt_file) = Some ts"
    using tgt by (simp add: resolve_same[of ?w1 w])
  then have o2: "open_file tgt_file ?w1 = (Inr (Suc ?n), ?w2)"
    by (simp add: open_file_def)
  have opened: "read_iwslt_open e split path year langpair w =
      (Inr (split = literal ''train'', ?n, Suc ?n), ?w2)"
    using ok names by (simp add: read_iwslt_open_def o1 o2) (simp add: is_same_def)
  have "gen_next e (read_iwslt split path year langpair eos) w =
      gen_next e (Suspended (split = literal ''train'') eos ?n (Suc ?n)) ?w2"
    by (simp add: gen_next_def read_iwslt_def opened)
  then have "drain e (read_iwslt split path year langpair eos) w =
      drain e (Suspended (split = literal ''train'') eos ?n (Suc ?n)) ?w2"
    by (rule drain_cong)
  also have "\<dots> = (Inr (pairs_of (split = literal ''train'') eos ss ts),
      closed_both ?n (Suc ?n) ?w2)"
    by (rule drain_suspended) simp_all
  also have "closed_both ?n (Suc ?n) ?w2 = after_read w"
    by (simp add: closed_both_def after_read_def closed_handles)
  finally show ?thesis .
qed

lemma load_loop_three:
  assumes "split_lines e w (literal ''train'') path year langpair = Some (s1, t1)"
    and "split_lines e w (literal ''dev'') path year langpair = Some (s2, t2)"
    and "split_lines e w (literal ''test'') path year langpair = Some (s3, t3)"
  shows "load_iwslt e path year langpair eos w =
           (Inr [unzip (pairs_of True eos s1 t1), unzip (pairs_of False eos s2 t2),
                 unzip (pairs_of False eos s3 t3)],
            after_read (after_read (after_read w)))"
proof -
  have neq: "literal ''dev'' \<noteq> literal ''train''" "literal ''test'' \<noteq> literal ''train''"
    by (simp_all add: literal_def ascii_def)
  have d1: "drain e (read_iwslt (literal ''train'') path year langpair eos) w =
      (Inr (pairs_of True eos s1 t1), after_read w)"
    using drain_read_iwslt[OF _ assms(1), of eos] by simp
  have "split_lines e (after_read w) (literal ''dev'') path year langpair = Some (s2, t2)"
    using assms(2) by (simp add: split_lines_same[of "after_read w" w])
  then have d2: "drain e (read_iwslt (literal ''dev'') path year langpair eos) (after_read w) =
      (Inr (pairs_of False eos s2 t2), after_read (after_read w))"
    using drain_read_iwslt[of "literal ''dev''" e "after_read w" path year langpair s2 t2 eos] neq
    by simp
  have "split_lines e (after_read (after_read w)) (literal ''test'') path year langpair =
      Some (s3, t3)"
    using assms(3)
    by (simp add: split_lines_same[of "after_read (after_read w)" w])
  then have d3: "drain e (read_iwslt (literal ''test'') path year langpair eos)
      (after_read (after_read w)) =
      (Inr (pairs_of False eos s3 t3), after_read (after_read (after_read w)))"
    using drain_read_iwslt[of "literal ''test''" e "after_read (after_read w)" path year langpair
        s3 t3 eos] neq
    by simp
  from split_lines_supported[OF assms(1)] show ?thesis
    by (simp add: load_iwslt_def d1 d2 d3 unzip_def)
qed

lemma load_loop_shape:
  "load_loop e sp path year langpair eos acc w = (Inr rs, w') \<Longrightarrow>
   length rs = length acc + length sp \<and>
   ((\<forall>(a, b) \<in> set acc. length a = length b) \<longrightarrow> (\<forall>(a, b) \<in> set rs. length a = length b))"
proof (induction sp arbitrary: acc w)
  case Nil
  then show ?case by auto
next
  case (Cons split rest)
  obtain r w1 where d: "drain e (read_iwslt split path year langpair eos) w = (r, w1)"
    by (cases "drain e (read_iwslt split path year langpair eos) w") auto
  show ?case
  proof (cases r)
    case (Inl err)
    with Cons.prems d show ?thesis by simp
  next
    case (Inr data)
    with Cons.prems d have
      "load_loop e rest path year langpair eos (acc @ [(map fst data, map snd data)]) w1 = (Inr rs, w')"
      by simp
    from Cons.IH[OF this] show ?thesis by auto
  qed
qed

lemma sample_train:
  "split_lines sample_env sample_world (literal ''train'') (ascii ''/data'') (ascii ''2016'')
     (ascii ''de-en'') = Some (train_de, train_en)"
  by (simp add: path_defs sample_env_def sample_world_def)

lemma sample_dev:
  "split_lines sample_env sample_world (literal ''dev'') (ascii ''/data'') (ascii ''2016'')
     (ascii ''de-en'') = Some (dev_de, dev_en)"
  by (simp add: path_defs sample_env_def sample_world_def)

lemma sample_test:
  "split_lines sample_env sample_world (literal ''test'') (ascii ''/data'') (ascii ''2016'')
     (ascii ''de-en'') = Some (test_de, test_en)"
  by (simp add: path_defs sample_env_def sample_world_def)

lemma sample_train_pairs:
  "pairs_of True None train_de train_en =
     [([ascii ''Hallo'', ascii ''Welt''], [ascii ''Hello'', ascii ''world'']),
      ([ascii ''<b>''], [ascii ''b'']),
      ([], [ascii ''ok''])]"
  by (simp add: body_defs sample_defs)

lemma sample_dev_pairs:
  "pairs_of False None dev_de dev_en = [([ascii ''Guten'', ascii ''Tag''], [ascii ''Good'', ascii ''day''])]"
  by (simp add: body_defs sample_defs)

lemma sample_test_pairs:
  "pairs_of False None test_de test_en = [([ascii ''ja''], [ascii ''yes''])]"
  by (simp add: body_defs sample_defs)

lemma dataset_key_supported:
  "(dataset_key year langpair \<in> {ascii ''2016.de-en'', ascii ''2016.fr-en''}) =
   (year = ascii ''2016'' \<and> (langpair = ascii ''de-en'' \<or> langpair = ascii ''fr-en''))"
  by (auto simp: dataset_key_def ascii_def append_eq_Cons_conv Cons_eq_append_conv)

lemma file_names_supported:
  assumes "dataset_key year langpair \<in> {ascii ''2016.de-en'', ascii ''2016.fr-en''}"
    and "split \<in> {literal ''train'', literal ''dev'', literal ''test''}"
  shows "\<exists>src_file tgt_file. file_names e w split is_train path year langpair = Inr (src_file, tgt_file)"
proof -
  from assms(1) have "year = ascii ''2016'' \<and> (langpair = ascii ''de-en'' \<or> langpair = ascii ''fr-en'')"
    by (simp only: dataset_key_supported)
  with assms(2) show ?thesis
    by (auto simp: file_names_def supported_def dataset_key_def literal_def ascii_def)
qed


lemma star_end_matches: "re_match [Star c] g s \<noteq> None"
  by (induction s) (auto split: option.splits)

lemma is_meta_prefix: "(match is_meta s \<noteq> None) = prefix (ascii ''<'') s"
proof (cases s)
  case Nil
  then show ?thesis by (simp add: match_def is_meta_def lit_def ascii_def)
next
  case (Cons x xs)
  then show ?thesis
    using star_end_matches[of "NotChr 10" False xs]
    by (auto simp: match_def is_meta_def lit_def ascii_def keep_def)
qed

lemma train_skip: "(loop_body True eos src_l tgt_l = None) = both_meta src_l tgt_l"
  using is_meta_prefix[of src_l] is_meta_prefix[of tgt_l]
  by (auto simp: loop_body_def both_meta_def)

lemma length_pairs_of:
  "length (pairs_of is_train eos ss ts) =
   length (filter (\<lambda>(s, t). loop_body is_train eos s t \<noteq> None) (zip ss ts))"
  unfolding pairs_of_def List.map_filter_def
  by (simp add: case_prod_unfold)

lemma length_map_filter_le: "length (List.map_filter f xs) \<le> length xs"
  by (simp add: List.map_filter_def)

lemma sample_both_meta:
  "filter (\<lambda>(src_l, tgt_l). both_meta src_l tgt_l) (zip train_de train_en) =
     [(ascii ''<url>x</url>\<newline>'', ascii ''<url>x</url>\<newline>'')]"
  "filter (\<lambda>(src_l, tgt_l). \<not> both_meta src_l tgt_l) (zip train_de train_en) =
     [(ascii ''Hallo Welt\<newline>'', ascii ''Hello world\<newline>''),
      (ascii ''<b>\<newline>'', ascii ''b\<newline>''),
      (ascii '' \<newline>'', ascii ''ok\<newline>'')]"
  by (simp_all add: both_meta_def train_de_def train_en_def ascii_def)

lemma scan_yield_body:
  "scan is_train eos ss ts = (Some pair, ss', ts') \<Longrightarrow>
   \<exists>s t. loop_body is_train eos s t = Some pair"
proof (induction is_train eos ss ts rule: scan.induct)
  case (3 is_train eos s ss t ts)
  then show ?case
    by (cases "loop_body is_train eos s t") auto
qed simp_all

lemma resume_yield_body:
  assumes "resume is_train eos src_obj tgt_obj w = (Inr (Some pair), g', w')"
  shows "\<exists>s t. loop_body is_train eos s t = Some pair"
  using assms
  by (auto simp: resume_def split: option.splits prod.splits dest: scan_yield_body)

lemma resume_yield_eos:
  assumes "resume is_train eos src_obj tgt_obj w = (Inr (Some pair), g', w')"
  shows "(\<exists>s t. loop_body is_train eos s t = Some pair) \<and> gen_eos g' = eos"
proof -
  from resume_yield[OF assms] have "g' = Suspended is_train eos src_obj tgt_obj"
    by simp
  then have "gen_eos g' = eos"
    by simp
  with resume_yield_body[OF assms] show ?thesis
    by simp
qed

lemma gen_next_yield_body:
  assumes "gen_next e g w = (Inr (Some pair), g', w')"
  shows "(\<exists>is_train s t. loop_body is_train (gen_eos g) s t = Some pair) \<and> gen_eos g' = gen_eos g"
proof (cases g)
  case (Created split path year langpair eos)
  with assms obtain is_train src_obj tgt_obj w1 where
    "resume is_train eos src_obj tgt_obj w1 = (Inr (Some pair), g', w')"
    by (auto simp: gen_next_def split: prod.splits sum.splits)
  from resume_yield_eos[OF this] Created show ?thesis
    by auto
next
  case (Suspended is_train eos src_obj tgt_obj)
  with assms have "resume is_train eos src_obj tgt_obj w = (Inr (Some pair), g', w')"
    by (simp add: gen_next_def)
  from resume_yield_eos[OF this] Suspended show ?thesis
    by auto
next
  case Finished
  with assms show ?thesis by (simp add: gen_next_def)
qed

lemma drain_yield_body:
  "drain e g w = (Inr pairs, w') \<Longrightarrow> pair \<in> set pairs \<Longrightarrow>
   \<exists>is_train s t. loop_body is_train (gen_eos g) s t = Some pair"
proof (induction e g w arbitrary: pairs w' rule: drain.induct)
  case (1 e g w)
  obtain r g1 w1 where n: "gen_next e g w = (r, g1, w1)"
    by (cases "gen_next e g w") auto
  show ?case
  proof (cases r)
    case (Inl err)
    with n "1.prems" show ?thesis
      by (subst (asm) drain.simps) simp
  next
    case (Inr y)
    show ?thesis
    proof (cases y)
      case None
      with n Inr "1.prems" show ?thesis
        by (subst (asm) drain.simps) simp
    next
      case (Some first)
      from n Inr Some have step: "gen_next e g w = (Inr (Some first), g1, w1)"
        by simp
      obtain r2 w2 where d: "drain e g1 w1 = (r2, w2)"
        by (cases "drain e g1 w1") auto
      from "1.prems"(1) step d obtain others where
        r2: "r2 = Inr others" and ps: "pairs = first # others"
        by (subst (asm) drain.simps) (auto split: sum.splits)
      show ?thesis
      proof (cases "pair = first")
        case True
        with gen_next_yield_body[OF step] show ?thesis by blast
      next
        case False
        with ps "1.prems"(2) have "pair \<in> set others" by simp
        from "1.IH"[OF step[symmetric] refl refl refl _ this] d r2
        have "\<exists>is_train s t. loop_body is_train (gen_eos g1) s t = Some pair"
          by simp
        with gen_next_yield_body[OF step] show ?thesis by simp
      qed
    qed
  qed
qed

lemma loop_body_tokens:
  "loop_body is_train eos s t = Some (a, b) \<Longrightarrow> \<exists>x y. a = tokens eos x \<and> b = tokens eos y"
  by (auto simp: loop_body_def split: if_splits option.splits)

lemma tokens_eos: "tokens (Some tok) x \<noteq> [] \<and> last (tokens (Some tok) x) = tok"
  by (simp add: tokens_def append_eos_def)

lemma split_scan_clean:
  "\<forall>c \<in> set cur. \<not> isspace c \<Longrightarrow> tok \<in> set (split_scan cur s) \<Longrightarrow>
   tok \<noteq> [] \<and> (\<forall>c \<in> set tok. \<not> isspace c)"
proof (induction s arbitrary: cur)
  case Nil
  then show ?case by (cases "cur = []") auto
next
  case (Cons c cs)
  show ?case
  proof (cases "isspace c")
    case True
    with Cons.prems(2) have "(cur \<noteq> [] \<and> tok = rev cur) \<or> tok \<in> set (split_scan [] cs)"
      by (cases "cur = []") auto
    then show ?thesis
    proof
      assume "cur \<noteq> [] \<and> tok = rev cur"
      with Cons.prems(1) show ?thesis by simp
    next
      assume "tok \<in> set (split_scan [] cs)"
      with Cons.IH[of "[]"] show ?thesis by simp
    qed
  next
    case False
    with Cons.prems(2) have "tok \<in> set (split_scan (c # cur) cs)"
      by simp
    with Cons.IH[of "c # cur"] Cons.prems(1) False show ?thesis
      by simp
  qed
qed

lemma split_whitespace_clean:
  "tok \<in> set (split_whitespace s) \<Longrightarrow> tok \<noteq> [] \<and> (\<forall>c \<in> set tok. \<not> isspace c)"
  unfolding split_whitespace_def using split_scan_clean[of "[]" tok s] by simp

lemma split_scan_spaces: "\<forall>c \<in> set s. isspace c \<Longrightarrow> split_scan [] s = []"
  by (induction s) simp_all

lemma strip_subset: "set (strip s) \<subseteq> set s"
proof -
  have "set (rstrip x) \<subseteq> set x" for x
    using set_dropWhileD[of _ isspace "rev x"] by (auto simp: rstrip_def)
  moreover have "set (lstrip s) \<subseteq> set s"
    using set_dropWhileD[of _ isspace s] by (auto simp: lstrip_def)
  ultimately show ?thesis
    unfolding strip_def by blast
qed

lemma tokens_spaces:
  assumes "\<forall>c \<in> set l. isspace c"
  shows "tokens eos l = append_eos eos []"
proof -
  from assms strip_subset[of l] have "\<forall>c \<in> set (strip l). isspace c"
    by blast
  then have "split_scan [] (strip l) = []"
    by (rule split_scan_spaces)
  then show ?thesis
    by (simp add: tokens_def split_whitespace_def)
qed

lemma spaces_not_meta:
  assumes "\<forall>c \<in> set l. isspace c"
  shows "match is_meta l = None"
proof (cases l)
  case Nil
  then show ?thesis by (simp add: match_def is_meta_def lit_def)
next
  case (Cons x xs)
  with assms have "isspace x" by simp
  then have "x \<noteq> 60" by (auto simp: isspace_def)
  with Cons show ?thesis by (simp add: match_def is_meta_def lit_def)
qed

lemmas step_defs =
  gen_next_def read_iwslt_def read_iwslt_open_def open_file_def resume_def close_file_def
  file_names_def split_file_def literal_def is_same_def supported_def
  dataset_key_def local_dir_def abspath_def resolve_def isabs_def

lemma sample_first_yield:
  "fst (gen_next sample_env
     (read_iwslt (literal ''train'') (ascii ''/data'') (ascii ''2016'') (ascii ''de-en'')
        (Some (ascii ''<eos>'')))
     sample_world) =
   Inr (Some ([ascii ''Hallo'', ascii ''Welt'', ascii ''<eos>''],
              [ascii ''Hello'', ascii ''world'', ascii ''<eos>'']))"
  by (simp add: step_defs body_defs sample_defs)

lemma loop_body_clean:
  assumes "loop_body is_train eos s t = Some (src_l, tgt_l)"
  shows "\<exists>src_toks tgt_toks.
           src_l = append_eos eos src_toks \<and> tgt_l = append_eos eos tgt_toks \<and>
           (\<forall>tok \<in> set src_toks \<union> set tgt_toks. tok \<noteq> [] \<and> (\<forall>c \<in> set tok. \<not> isspace c))"
proof -
  from loop_body_tokens[OF assms] obtain x y where
    xy: "src_l = tokens eos x" "tgt_l = tokens eos y"
    by blast
  have "\<forall>tok \<in> set (split_whitespace (strip x)) \<union> set (split_whitespace (strip y)).
      tok \<noteq> [] \<and> (\<forall>c \<in> set tok. \<not> isspace c)"
    using split_whitespace_clean by blast
  with xy show ?thesis
    unfolding tokens_def by blast
qed

lemma sample_last_line:
  "loop_body True (Some (ascii ''<eos>'')) (ascii '' \<newline>'') (ascii ''ok\<newline>'') =
     Some ([ascii ''<eos>''], [ascii ''ok'', ascii ''<eos>''])"
  by (simp add: body_defs)

lemma lit_lits: "lit s = lits (ascii s)"
  by (simp add: lit_def lits_def ascii_def)

lemma re_lits_sound:
  "re_match (lits cs @ p) False s = Some r \<Longrightarrow> \<exists>s'. s = cs @ s' \<and> re_match p False s' = Some r"
proof (induction cs arbitrary: s)
  case Nil
  then show ?case by (simp add: lits_def)
next
  case (Cons c cs)
  then show ?case
    by (cases s) (auto simp: lits_def keep_def split: if_splits)
qed

lemma keep_outside: "map_option (keep False x) r = r"
  by (cases r) (simp_all add: keep_def)

lemma re_lits_complete: "re_match (lits cs @ p) False (cs @ s') = re_match p False s'"
  by (induction cs) (simp_all add: lits_def keep_outside)

lemma re_attrs_sound:
  "re_match (Star (NotChr k) # One (Chr k) # q) False s = Some r \<Longrightarrow>
   \<exists>a s'. s = a @ k # s' \<and> k \<notin> set a \<and> re_match q False s' = Some r"
proof (induction s)
  case Nil
  then show ?case by simp
next
  case (Cons x xs)
  show ?case
  proof (cases "x \<noteq> k \<and> re_match (Star (NotChr k) # One (Chr k) # q) False xs \<noteq> None")
    case True
    with Cons.prems have "re_match (Star (NotChr k) # One (Chr k) # q) False xs = Some r"
      by (auto simp: keep_def)
    from Cons.IH[OF this] obtain a s' where
      "xs = a @ k # s'" "k \<notin> set a" "re_match q False s' = Some r"
      by blast
    with True have "x # xs = (x # a) @ k # s' \<and> k \<notin> set (x # a) \<and> re_match q False s' = Some r"
      by simp
    then show ?thesis by blast
  next
    case False
    with Cons.prems have "x = k \<and> re_match q False xs = Some r"
      by (auto simp: keep_def split: if_splits option.splits)
    then have "x # xs = [] @ k # xs \<and> k \<notin> set [] \<and> re_match q False xs = Some r"
      by simp
    then show ?thesis by blast
  qed
qed

lemma re_attrs_complete:
  "k \<notin> set a \<Longrightarrow> re_match q False s' \<noteq> None \<Longrightarrow>
   re_match (Star (NotChr k) # One (Chr k) # q) False (a @ k # s') \<noteq> None"
  by (induction a) (auto simp: keep_def split: option.splits)

lemma re_content_sound:
  "re_match (Star (NotChr 10) # GroupClose # lits cs) True s = Some r \<Longrightarrow>
   \<exists>rest. s = r @ cs @ rest \<and> 10 \<notin> set r"
proof (induction s arbitrary: r)
  case Nil
  then have "re_match (lits cs @ []) False [] = Some r"
    by simp
  from re_lits_sound[OF this] show ?case
    by auto
next
  case (Cons x xs)
  show ?case
  proof (cases "x \<noteq> 10 \<and> re_match (Star (NotChr 10) # GroupClose # lits cs) True xs \<noteq> None")
    case True
    then obtain r' where r': "re_match (Star (NotChr 10) # GroupClose # lits cs) True xs = Some r'"
      by blast
    with True Cons.prems have "r = x # r'"
      by (auto simp: keep_def)
    moreover from Cons.IH[OF r'] obtain rest where "xs = r' @ cs @ rest" "10 \<notin> set r'"
      by blast
    ultimately show ?thesis
      using True by auto
  next
    case False
    with Cons.prems have "re_match (lits cs @ []) False (x # xs) = Some r"
      by (auto split: if_splits option.splits)
    from re_lits_sound[OF this] show ?thesis
      by auto
  qed
qed

lemma star_fallback: "re_match p g s \<noteq> None \<Longrightarrow> re_match (Star c # p) g s \<noteq> None"
  by (cases s) (auto split: option.splits)

lemma re_content_complete:
  "10 \<notin> set c \<Longrightarrow>
   re_match (Star (NotChr 10) # GroupClose # lits cs) True (c @ cs @ rest) \<noteq> None"
proof (induction c)
  case Nil
  have "re_match (GroupClose # lits cs) True (cs @ rest) \<noteq> None"
    using re_lits_complete[of cs "[]" rest] by simp
  then show ?case
    using star_fallback by simp
next
  case (Cons x c)
  then show ?case by (auto split: option.splits)
qed

lemma eval_segment_lits:
  "eval_segment =
     lits (ascii ''<seg'') @
     (Star (NotChr 62) # One (Chr 62) # GroupOpen # Star (NotChr 10) # GroupClose #
      lits (ascii ''</seg>''))"
  by (simp add: eval_segment_def lit_lits) (simp add: lits_def ascii_def)

lemma eval_segment_group:
  assumes "match eval_segment l = Some content"
  shows "\<exists>attrs rest.
           l = ascii ''<seg'' @ attrs @ ascii ''>'' @ content @ ascii ''</seg>'' @ rest \<and>
           62 \<notin> set attrs \<and> 10 \<notin> set content"
proof -
  from assms have "re_match (lits (ascii ''<seg'') @
      (Star (NotChr 62) # One (Chr 62) # GroupOpen # Star (NotChr 10) # GroupClose #
       lits (ascii ''</seg>''))) False l = Some content"
    by (simp add: match_def eval_segment_lits)
  from re_lits_sound[OF this] obtain s1 where
    l: "l = ascii ''<seg'' @ s1" and
    m1: "re_match (Star (NotChr 62) # One (Chr 62) # GroupOpen # Star (NotChr 10) # GroupClose #
       lits (ascii ''</seg>'')) False s1 = Some content"
    by blast
  from re_attrs_sound[OF m1] obtain attrs s2 where
    s1: "s1 = attrs @ 62 # s2" and a: "62 \<notin> set attrs" and
    m2: "re_match (GroupOpen # Star (NotChr 10) # GroupClose # lits (ascii ''</seg>'')) False s2 =
      Some content"
    by blast
  from m2 have "re_match (Star (NotChr 10) # GroupClose # lits (ascii ''</seg>'')) True s2 =
      Some content"
    by simp
  from re_content_sound[OF this] obtain rest where
    "s2 = content @ ascii ''</seg>'' @ rest" "10 \<notin> set content"
    by blast
  with l s1 a show ?thesis
    by (auto simp: ascii_def)
qed

lemma eval_segment_matches:
  assumes "62 \<notin> set attrs" "10 \<notin> set content"
  shows "match eval_segment
           (ascii ''<seg'' @ attrs @ ascii ''>'' @ content @ ascii ''</seg>'' @ rest) \<noteq> None"
proof -
  have "re_match (GroupOpen # Star (NotChr 10) # GroupClose # lits (ascii ''</seg>'')) False
      (content @ ascii ''</seg>'' @ rest) \<noteq> None"
    using re_content_complete[OF assms(2)] by simp
  then have "re_match (lits (ascii ''<seg'') @
      (Star (NotChr 62) # One (Chr 62) # GroupOpen # Star (NotChr 10) # GroupClose #
       lits (ascii ''</seg>''))) False
      (ascii ''<seg'' @ attrs @ 62 # content @ ascii ''</seg>'' @ rest) \<noteq> None"
    unfolding re_lits_complete by (rule re_attrs_complete[OF assms(1)])
  moreover have "ascii ''>'' = [62]"
    by (simp add: ascii_def)
  ultimately show ?thesis
    by (simp add: match_def eval_segment_lits)
qed

lemma eval_segment_shape:
  "(match eval_segment l \<noteq> None) =
   (\<exists>attrs content rest.
      l = ascii ''<seg'' @ attrs @ ascii ''>'' @ content @ ascii ''</seg>'' @ rest \<and>
      62 \<notin> set attrs \<and> 10 \<notin> set content)"
proof
  assume "match eval_segment l \<noteq> None"
  then obtain content where "match eval_segment l = Some content"
    by blast
  from eval_segment_group[OF this] show
    "\<exists>attrs content rest.
      l = ascii ''<seg'' @ attrs @ ascii ''>'' @ content @ ascii ''</seg>'' @ rest \<and>
      62 \<notin> set attrs \<and> 10 \<notin> set content"
    by blast
next
  assume "\<exists>attrs content rest.
      l = ascii ''<seg'' @ attrs @ ascii ''>'' @ content @ ascii ''</seg>'' @ rest \<and>
      62 \<notin> set attrs \<and> 10 \<notin> set content"
  then show "match eval_segment l \<noteq> None"
    using eval_segment_matches by blast
qed

lemma eval_skip:
  "(loop_body False eos src_l tgt_l = None) =
   (match eval_segment src_l = None \<or> match eval_segment tgt_l = None)"
  by (auto simp: loop_body_def split: option.splits)

lemma eval_tokens:
  "match eval_segment src_l = Some src_seg \<Longrightarrow> match eval_segment tgt_l = Some tgt_seg \<Longrightarrow>
   loop_body False eos src_l tgt_l =
     Some (append_eos eos (split_whitespace (strip src_seg)),
           append_eos eos (split_whitespace (strip tgt_seg)))"
  by (simp add: loop_body_def tokens_def)

lemma sample_dev_match:
  "match eval_segment (ascii ''<seg id=\"1\"> Guten Tag </seg>\<newline>'') = Some (ascii '' Guten Tag '')"
  "match eval_segment (ascii ''<seg id=\"1\"> Good day </seg>\<newline>'') = Some (ascii '' Good day '')"
  "match eval_segment (ascii ''<doc>\<newline>'') = None"
  by (simp_all add: body_defs)

lemma sample_dev_eos_pairs:
  "List.map_filter (\<lambda>(s, t). loop_body False (Some (ascii ''<eos>'')) s t) (zip dev_de dev_en) =
     [([ascii ''Guten'', ascii ''Tag'', ascii ''<eos>''],
       [ascii ''Good'', ascii ''day'', ascii ''<eos>''])]"
  by (simp add: body_defs sample_defs)

lemma resume_finishes_closed:
  assumes "resume is_train eos src_obj tgt_obj w = (Inr None, g', w')"
  shows "handles w' src_obj = None \<and> handles w' tgt_obj = None"
  using assms
  by (auto simp: resume_def close_file_def split: option.splits prod.splits)

section \<open>The properties\<close>

text \<open>
  C1. \<open>load_iwslt\<close> never returns anything but three split results, each a pair of lists
  of equal length. When the two files of each of the three splits exist (which, by
  \<open>split_lines_supported\<close> and \<open>file_names_supported\<close>, says that the dataset is a supported
  one and its files are there), it does return, and the three results are those of the
  train, the dev and the test files, in this order.
\<close>

theorem load_iwslt_three_splits:
  "(load_iwslt e path year langpair eos w = (Inr rs, w') \<longrightarrow>
      length rs = 3 \<and> (\<forall>(src_data, tgt_data) \<in> set rs. length src_data = length tgt_data)) \<and>
   (split_lines e w (literal ''train'') path year langpair = Some (s1, t1) \<longrightarrow>
    split_lines e w (literal ''dev'') path year langpair = Some (s2, t2) \<longrightarrow>
    split_lines e w (literal ''test'') path year langpair = Some (s3, t3) \<longrightarrow>
      load_iwslt e path year langpair eos w =
        (Inr [unzip (pairs_of True eos s1 t1), unzip (pairs_of False eos s2 t2),
              unzip (pairs_of False eos s3 t3)],
         after_read (after_read (after_read w))))"
proof (intro conjI impI)
  assume r: "load_iwslt e path year langpair eos w = (Inr rs, w')"
  then have "load_loop e [literal ''train'', literal ''dev'', literal ''test'']
      path year langpair eos [] w = (Inr rs, w')"
    by (simp add: load_iwslt_def split: if_splits)
  from load_loop_shape[OF this]
  show "length rs = 3" and "\<forall>(src_data, tgt_data) \<in> set rs. length src_data = length tgt_data"
    by simp_all
next
  assume "split_lines e w (literal ''train'') path year langpair = Some (s1, t1)"
    "split_lines e w (literal ''dev'') path year langpair = Some (s2, t2)"
    "split_lines e w (literal ''test'') path year langpair = Some (s3, t3)"
  then show "load_iwslt e path year langpair eos w =
        (Inr [unzip (pairs_of True eos s1 t1), unzip (pairs_of False eos s2 t2),
              unzip (pairs_of False eos s3 t3)],
         after_read (after_read (after_read w)))"
    by (rule load_loop_three)
qed

theorem load_iwslt_three_splits_witness:
  "split_lines sample_env sample_world (literal ''train'') (ascii ''/data'') (ascii ''2016'')
     (ascii ''de-en'') = Some (train_de, train_en) \<and>
   split_lines sample_env sample_world (literal ''dev'') (ascii ''/data'') (ascii ''2016'')
     (ascii ''de-en'') = Some (dev_de, dev_en) \<and>
   split_lines sample_env sample_world (literal ''test'') (ascii ''/data'') (ascii ''2016'')
     (ascii ''de-en'') = Some (test_de, test_en) \<and>
   load_iwslt sample_env (ascii ''/data'') (ascii ''2016'') (ascii ''de-en'') None sample_world =
     (Inr [([[ascii ''Hallo'', ascii ''Welt''], [ascii ''<b>''], []],
            [[ascii ''Hello'', ascii ''world''], [ascii ''b''], [ascii ''ok'']]),
           ([[ascii ''Guten'', ascii ''Tag'']], [[ascii ''Good'', ascii ''day'']]),
           ([[ascii ''ja'']], [[ascii ''yes'']])],
      after_read (after_read (after_read sample_world))) \<and>
   length [([[ascii ''Hallo'', ascii ''Welt''], [ascii ''<b>''], []],
            [[ascii ''Hello'', ascii ''world''], [ascii ''b''], [ascii ''ok'']]),
           ([[ascii ''Guten'', ascii ''Tag'']], [[ascii ''Good'', ascii ''day'']]),
           ([[ascii ''ja'']], [[ascii ''yes'']])] = 3"
  using load_iwslt_three_splits[of sample_env "ascii ''/data''" "ascii ''2016''" "ascii ''de-en''"
      None sample_world
      "[([[ascii ''Hallo'', ascii ''Welt''], [ascii ''<b>''], []],
         [[ascii ''Hello'', ascii ''world''], [ascii ''b''], [ascii ''ok'']]),
        ([[ascii ''Guten'', ascii ''Tag'']], [[ascii ''Good'', ascii ''day'']]),
        ([[ascii ''ja'']], [[ascii ''yes'']])]"
      "after_read (after_read (after_read sample_world))"
      train_de train_en dev_de dev_en test_de test_en]
    sample_train sample_dev sample_test
  by (simp add: sample_train_pairs sample_dev_pairs sample_test_pairs unzip_def)

text \<open>
  C2. With \<open>split\<close> the train split, the loop body skips a pair of lines exactly when both
  lines begin with \<open><\<close> (so a pair of which only one line does is not skipped). Hence,
  when the paired lines of the two train files hold \<open>N\<close> pairs of which both lines begin
  with \<open><\<close> and \<open>M\<close> other pairs, the reader yields exactly \<open>M\<close> pairs.
\<close>

theorem read_iwslt_train_filter:
  assumes "split_lines e w (literal ''train'') path year langpair = Some (ss, ts)"
    and "length (filter (\<lambda>(src_l, tgt_l). both_meta src_l tgt_l) (zip ss ts)) = N"
    and "length (filter (\<lambda>(src_l, tgt_l). \<not> both_meta src_l tgt_l) (zip ss ts)) = M"
  shows "(\<forall>src_l tgt_l. (loop_body True eos src_l tgt_l = None) = both_meta src_l tgt_l) \<and>
         (\<exists>pairs w'. drain e (read_iwslt (literal ''train'') path year langpair eos) w =
                        (Inr pairs, w') \<and>
                      length pairs = M \<and> N + M = min (length ss) (length ts))"
proof -
  have "length (pairs_of True eos ss ts) = M"
    using assms(3) by (simp add: length_pairs_of train_skip)
  moreover have "N + M = length (zip ss ts)"
    using sum_length_filter_compl[of "\<lambda>(src_l, tgt_l). both_meta src_l tgt_l" "zip ss ts"]
      assms(2,3) by (simp add: case_prod_unfold)
  moreover have "drain e (read_iwslt (literal ''train'') path year langpair eos) w =
      (Inr (pairs_of True eos ss ts), after_read w)"
    using drain_read_iwslt[OF _ assms(1), of eos] by simp
  ultimately show ?thesis
    by (simp add: train_skip)
qed

theorem read_iwslt_train_filter_witness:
  "split_lines sample_env sample_world (literal ''train'') (ascii ''/data'') (ascii ''2016'')
     (ascii ''de-en'') = Some (train_de, train_en) \<and>
   length (filter (\<lambda>(src_l, tgt_l). both_meta src_l tgt_l) (zip train_de train_en)) = 1 \<and>
   length (filter (\<lambda>(src_l, tgt_l). \<not> both_meta src_l tgt_l) (zip train_de train_en)) = 3 \<and>
   \<not> both_meta (ascii ''<b>\<newline>'') (ascii ''b\<newline>'') \<and>
   loop_body True None (ascii ''<b>\<newline>'') (ascii ''b\<newline>'') \<noteq> None \<and>
   (\<exists>pairs w'. drain sample_env
       (read_iwslt (literal ''train'') (ascii ''/data'') (ascii ''2016'') (ascii ''de-en'') None)
       sample_world = (Inr pairs, w') \<and> length pairs = 3)"
proof -
  have n: "length (filter (\<lambda>(src_l, tgt_l). both_meta src_l tgt_l) (zip train_de train_en)) = 1"
    and m: "length (filter (\<lambda>(src_l, tgt_l). \<not> both_meta src_l tgt_l) (zip train_de train_en)) = 3"
    by (simp_all add: sample_both_meta)
  have one: "\<not> both_meta (ascii ''<b>\<newline>'') (ascii ''b\<newline>'')"
    by (simp add: both_meta_def ascii_def)
  from read_iwslt_train_filter[OF sample_train n m, of None] sample_train n m one
  show ?thesis
    by blast
qed

text \<open>
  C3, as amended. In the dev and test splits the loop body skips a pair of lines exactly
  when \<open>eval_segment\<close> fails to match one of them, and it matches the lines that begin
  with \<open><seg\<close>, then have no \<open>>\<close> up to a \<open>>\<close>, and then have \<open></seg>\<close> after some text
  without a newline. When it matches both, the pair
  yielded holds, for each side, the whitespace-split of the stripped text of group 1,
  followed by the end-of-sequence token when one was given; and group 1 is the text
  between the \<open>>\<close> that ends the \<open><seg\<close> tag and a later \<open></seg>\<close> on the same line. For
  a dev or test split whose files exist, \<open>list\<close> on the generator returns these pairs
  for the lines of the two files taken in lockstep.
\<close>

theorem read_iwslt_eval_segments:
  "((loop_body False eos src_l tgt_l = None) =
      (match eval_segment src_l = None \<or> match eval_segment tgt_l = None)) \<and>
   ((match eval_segment l \<noteq> None) =
      (\<exists>attrs content rest.
         l = ascii ''<seg'' @ attrs @ ascii ''>'' @ content @ ascii ''</seg>'' @ rest \<and>
         62 \<notin> set attrs \<and> 10 \<notin> set content)) \<and>
   (match eval_segment src_l = Some src_seg \<longrightarrow> match eval_segment tgt_l = Some tgt_seg \<longrightarrow>
      loop_body False eos src_l tgt_l =
        Some (append_eos eos (split_whitespace (strip src_seg)),
              append_eos eos (split_whitespace (strip tgt_seg))) \<and>
      (\<exists>attrs rest.
         src_l = ascii ''<seg'' @ attrs @ ascii ''>'' @ src_seg @ ascii ''</seg>'' @ rest \<and>
         62 \<notin> set attrs \<and> 10 \<notin> set src_seg)) \<and>
   (split \<in> {literal ''dev'', literal ''test''} \<longrightarrow>
    split_lines e w split path year langpair = Some (ss, ts) \<longrightarrow>
      drain e (read_iwslt split path year langpair eos) w =
        (Inr (List.map_filter (\<lambda>(s, t). loop_body False eos s t) (zip ss ts)), after_read w))"
proof (intro conjI impI)
  show "(loop_body False eos src_l tgt_l = None) =
      (match eval_segment src_l = None \<or> match eval_segment tgt_l = None)"
    by (rule eval_skip)
next
  show "(match eval_segment l \<noteq> None) =
      (\<exists>attrs content rest.
         l = ascii ''<seg'' @ attrs @ ascii ''>'' @ content @ ascii ''</seg>'' @ rest \<and>
         62 \<notin> set attrs \<and> 10 \<notin> set content)"
    by (rule eval_segment_shape)
next
  assume "match eval_segment src_l = Some src_seg" "match eval_segment tgt_l = Some tgt_seg"
  then show "loop_body False eos src_l tgt_l =
        Some (append_eos eos (split_whitespace (strip src_seg)),
              append_eos eos (split_whitespace (strip tgt_seg)))"
    by (rule eval_tokens)
next
  assume "match eval_segment src_l = Some src_seg"
  then show "\<exists>attrs rest.
         src_l = ascii ''<seg'' @ attrs @ ascii ''>'' @ src_seg @ ascii ''</seg>'' @ rest \<and>
         62 \<notin> set attrs \<and> 10 \<notin> set src_seg"
    by (rule eval_segment_group)
next
  assume s: "split \<in> {literal ''dev'', literal ''test''}"
    and l: "split_lines e w split path year langpair = Some (ss, ts)"
  from s have k: "split \<in> {literal ''train'', literal ''dev'', literal ''test''}"
    and n: "split \<noteq> literal ''train''"
    by (auto simp: literal_def ascii_def)
  from drain_read_iwslt[OF k l, of eos] n
  show "drain e (read_iwslt split path year langpair eos) w =
        (Inr (List.map_filter (\<lambda>(s, t). loop_body False eos s t) (zip ss ts)), after_read w)"
    by (simp add: pairs_of_def)
qed

theorem read_iwslt_eval_segments_witness:
  "match eval_segment (ascii ''<seg id=\"1\"> Guten Tag </seg>\<newline>'') = Some (ascii '' Guten Tag '') \<and>
   match eval_segment (ascii ''<seg id=\"1\"> Good day </seg>\<newline>'') = Some (ascii '' Good day '') \<and>
   loop_body False (Some (ascii ''<eos>''))
     (ascii ''<seg id=\"1\"> Guten Tag </seg>\<newline>'')
     (ascii ''<seg id=\"1\"> Good day </seg>\<newline>'') =
     Some (append_eos (Some (ascii ''<eos>'')) (split_whitespace (strip (ascii '' Guten Tag ''))),
           append_eos (Some (ascii ''<eos>'')) (split_whitespace (strip (ascii '' Good day '')))) \<and>
   literal ''dev'' \<in> {literal ''dev'', literal ''test''} \<and>
   split_lines sample_env sample_world (literal ''dev'') (ascii ''/data'') (ascii ''2016'')
     (ascii ''de-en'') = Some (dev_de, dev_en) \<and>
   drain sample_env
     (read_iwslt (literal ''dev'') (ascii ''/data'') (ascii ''2016'') (ascii ''de-en'')
        (Some (ascii ''<eos>'')))
     sample_world =
     (Inr [([ascii ''Guten'', ascii ''Tag'', ascii ''<eos>''],
            [ascii ''Good'', ascii ''day'', ascii ''<eos>''])],
      after_read sample_world)"
  using read_iwslt_eval_segments[of "Some (ascii ''<eos>'')"
      "ascii ''<seg id=\"1\"> Guten Tag </seg>\<newline>''"
      "ascii ''<seg id=\"1\"> Good day </seg>\<newline>''"
      "ascii ''<doc>\<newline>''"
      "ascii '' Guten Tag ''" "ascii '' Good day ''" "literal ''dev''"
      sample_env sample_world "ascii ''/data''" "ascii ''2016''" "ascii ''de-en''" dev_de dev_en]
    sample_dev_match sample_dev sample_dev_eos_pairs
  by simp

text \<open>
  C3 as stated fails when an end-of-sequence token is given: both lines match, and the
  source tokens yielded are not the whitespace-split of the stripped segment content,
  which has no such token.
\<close>

theorem read_iwslt_eval_segments_counterexample:
  "match eval_segment (ascii ''<seg id=\"1\"> Guten Tag </seg>\<newline>'') = Some (ascii '' Guten Tag '') \<and>
   match eval_segment (ascii ''<seg id=\"1\"> Good day </seg>\<newline>'') = Some (ascii '' Good day '') \<and>
   loop_body False (Some (ascii ''<eos>''))
     (ascii ''<seg id=\"1\"> Guten Tag </seg>\<newline>'')
     (ascii ''<seg id=\"1\"> Good day </seg>\<newline>'') =
     Some ([ascii ''Guten'', ascii ''Tag'', ascii ''<eos>''],
           [ascii ''Good'', ascii ''day'', ascii ''<eos>'']) \<and>
   split_whitespace (strip (ascii '' Guten Tag '')) = [ascii ''Guten'', ascii ''Tag''] \<and>
   [ascii ''Guten'', ascii ''Tag'', ascii ''<eos>''] \<noteq>
     split_whitespace (strip (ascii '' Guten Tag ''))"
  by (simp add: sample_dev_match) (simp add: body_defs)

text \<open>
  C4 does not hold of the code. \<open>download_iwslt\<close> called with the folder \<open>/data\<close> from the
  working directory \<open>/home/u\<close> finds the archive under \<open>/data\<close>, but makes the directory
  \<open>iwslt2016.de-en\<close> and extracts into it under the working directory, since it passes
  the bare name of \<open>local_dir\<close> to \<open>isdir\<close>, \<open>mkdir\<close> and \<open>extractall\<close>. \<open>read_iwslt\<close> looks for
  the files under \<open>/data/iwslt2016.de-en\<close>.
\<close>

theorem download_iwslt_extracts_in_cwd:
  "fst (download_iwslt sample_env (ascii ''/data'') (ascii ''2016'') (ascii ''de-en'') False
          sample_world) = Inr () \<and>
   extracted (snd (download_iwslt sample_env (ascii ''/data'') (ascii ''2016'') (ascii ''de-en'')
          False sample_world)) =
     [(ascii ''/data/iwslt2016.de-en.tgz'', ascii ''/home/u/iwslt2016.de-en'')] \<and>
   dirs (snd (download_iwslt sample_env (ascii ''/data'') (ascii ''2016'') (ascii ''de-en'')
          False sample_world)) = {ascii ''/home/u/iwslt2016.de-en''} \<and>
   path_join (abspath sample_env sample_world (ascii ''/data''))
     [local_dir (ascii ''2016'') (ascii ''de-en'')] = ascii ''/data/iwslt2016.de-en'' \<and>
   ascii ''/home/u/iwslt2016.de-en'' \<noteq> ascii ''/data/iwslt2016.de-en''"
  by (simp add: download_iwslt_def extractall_def isdir_def mkdir_def iwslt_url_def Let_def
      local_dir_def abspath_def resolve_def isabs_def sample_env_def sample_world_def ascii_def)

text \<open>
  C5. When the characters of \<open>split\<close> are none of \<open>train\<close>, \<open>dev\<close> and \<open>test\<close>, the first
  \<open>next\<close> on the generator of \<open>read_iwslt\<close> raises the \<open>ValueError\<close> of line 92 and leaves the
  world as it was (no file object was made), and so does \<open>list\<close> on it.
\<close>

theorem read_iwslt_invalid_split:
  assumes "str_value split \<notin> {ascii ''train'', ascii ''dev'', ascii ''test''}"
  shows "gen_next e (read_iwslt split path year langpair eos) w =
           (Inl (ValueError (ascii ''split must be \"train\", \"dev\" or \"test\"'')),
            Finished, w) \<and>
         drain e (read_iwslt split path year langpair eos) w =
           (Inl (ValueError (ascii ''split must be \"train\", \"dev\" or \"test\"'')), w)"
proof -
  from assms have "\<not> (is_same split (literal ''test'') \<or> is_same split (literal ''dev'') \<or>
      is_same split (literal ''train''))"
    by (auto simp: is_same_def literal_def)
  then have "read_iwslt_open e split path year langpair w =
      (Inl (ValueError (ascii ''split must be \"train\", \"dev\" or \"test\"'')), w)"
    by (simp add: read_iwslt_open_def)
  then have step: "gen_next e (read_iwslt split path year langpair eos) w =
      (Inl (ValueError (ascii ''split must be \"train\", \"dev\" or \"test\"'')), Finished, w)"
    by (simp add: gen_next_def read_iwslt_def)
  then show ?thesis
    by (subst drain.simps) simp
qed

theorem read_iwslt_invalid_split_witness:
  "str_value (literal ''valid'') \<notin> {ascii ''train'', ascii ''dev'', ascii ''test''} \<and>
   gen_next sample_env
     (read_iwslt (literal ''valid'') (ascii ''/data'') (ascii ''2016'') (ascii ''de-en'') None)
     sample_world =
     (Inl (ValueError (ascii ''split must be \"train\", \"dev\" or \"test\"'')),
      Finished, sample_world) \<and>
   drain sample_env
     (read_iwslt (literal ''valid'') (ascii ''/data'') (ascii ''2016'') (ascii ''de-en'') None)
     sample_world =
     (Inl (ValueError (ascii ''split must be \"train\", \"dev\" or \"test\"'')), sample_world)"
proof -
  have h: "str_value (literal ''valid'') \<notin> {ascii ''train'', ascii ''dev'', ascii ''test''}"
    by (simp add: literal_def ascii_def)
  from read_iwslt_invalid_split[OF h] h show ?thesis
    by blast
qed

text \<open>
  C6. When the key of \<open>year\<close> and \<open>langpair\<close> is not one of the supported keys,
  \<open>load_iwslt\<close> raises a \<open>ValueError\<close> whose message names the key and lists the supported
  datasets as \<open>2016.de-en, 2016.fr-en\<close>; the world is left as it was, so no reader has run
  and no file has been opened.
\<close>

theorem load_iwslt_unsupported:
  assumes "dataset_key year langpair \<notin> {ascii ''2016.de-en'', ascii ''2016.fr-en''}"
  shows "load_iwslt e path year langpair eos w =
           (Inl (ValueError (dataset_key year langpair @
                   ascii '' not supported. Supported datasets are 2016.de-en, 2016.fr-en'')), w)"
proof -
  from assms have "map_of supported (dataset_key year langpair) = None"
    unfolding supported_keys[symmetric] by (simp add: map_of_eq_None_iff)
  then show ?thesis
    by (simp add: load_iwslt_def supported_string_eq) (simp add: ascii_def)
qed

theorem load_iwslt_unsupported_witness:
  "dataset_key (ascii ''2099'') (ascii ''xx-yy'') \<notin> {ascii ''2016.de-en'', ascii ''2016.fr-en''} \<and>
   load_iwslt sample_env (ascii ''/data'') (ascii ''2099'') (ascii ''xx-yy'') None sample_world =
     (Inl (ValueError (ascii
        ''2099.xx-yy not supported. Supported datasets are 2016.de-en, 2016.fr-en'')),
      sample_world)"
proof -
  have h: "dataset_key (ascii ''2099'') (ascii ''xx-yy'') \<notin>
      {ascii ''2016.de-en'', ascii ''2016.fr-en''}"
    by (simp add: dataset_key_def ascii_def)
  from load_iwslt_unsupported[OF h, of sample_env "ascii ''/data''" None sample_world] h
  show ?thesis
    by (simp add: dataset_key_def ascii_def)
qed

text \<open>
  C7. A generator of \<open>read_iwslt\<close> called with an end-of-sequence token holds that token
  from its creation on, and every pair it yields, at any \<open>next\<close>, has the token as the
  last element of its source tokens and of its target tokens; so has every pair of the
  list that \<open>list\<close> makes of the generator.
\<close>

theorem read_iwslt_appends_eos:
  "gen_eos (read_iwslt split path year langpair (Some tok)) = Some tok \<and>
   (gen_eos g = Some tok \<longrightarrow> gen_next e g w = (Inr (Some (src_l, tgt_l)), g', w') \<longrightarrow>
      src_l \<noteq> [] \<and> last src_l = tok \<and> tgt_l \<noteq> [] \<and> last tgt_l = tok \<and>
      gen_eos g' = Some tok) \<and>
   (drain e (read_iwslt split path year langpair (Some tok)) w = (Inr pairs, w'') \<longrightarrow>
      (\<forall>(src_l, tgt_l) \<in> set pairs.
         src_l \<noteq> [] \<and> last src_l = tok \<and> tgt_l \<noteq> [] \<and> last tgt_l = tok))"
proof (intro conjI impI)
  show "gen_eos (read_iwslt split path year langpair (Some tok)) = Some tok"
    by (simp add: read_iwslt_def)
next
  assume g: "gen_eos g = Some tok"
    and n: "gen_next e g w = (Inr (Some (src_l, tgt_l)), g', w')"
  from gen_next_yield_body[OF n] g obtain is_train s t where
    b: "loop_body is_train (Some tok) s t = Some (src_l, tgt_l)" and g': "gen_eos g' = Some tok"
    by auto
  from loop_body_tokens[OF b] obtain x y where
    "src_l = tokens (Some tok) x" "tgt_l = tokens (Some tok) y"
    by blast
  with tokens_eos[of tok x] tokens_eos[of tok y] g'
  show "src_l \<noteq> []" "last src_l = tok" "tgt_l \<noteq> []" "last tgt_l = tok" "gen_eos g' = Some tok"
    by simp_all
next
  assume d: "drain e (read_iwslt split path year langpair (Some tok)) w = (Inr pairs, w'')"
  show "\<forall>(src_l, tgt_l) \<in> set pairs.
         src_l \<noteq> [] \<and> last src_l = tok \<and> tgt_l \<noteq> [] \<and> last tgt_l = tok"
  proof (clarify)
    fix a b
    assume "(a, b) \<in> set pairs"
    from drain_yield_body[OF d this] obtain is_train s t where
      "loop_body is_train (Some tok) s t = Some (a, b)"
      by (auto simp: read_iwslt_def)
    from loop_body_tokens[OF this] obtain x y where
      "a = tokens (Some tok) x" "b = tokens (Some tok) y"
      by blast
    with tokens_eos[of tok x] tokens_eos[of tok y]
    show "a \<noteq> [] \<and> last a = tok \<and> b \<noteq> [] \<and> last b = tok"
      by simp
  qed
qed

theorem read_iwslt_appends_eos_witness:
  "fst (gen_next sample_env
     (read_iwslt (literal ''train'') (ascii ''/data'') (ascii ''2016'') (ascii ''de-en'')
        (Some (ascii ''<eos>'')))
     sample_world) =
   Inr (Some ([ascii ''Hallo'', ascii ''Welt'', ascii ''<eos>''],
              [ascii ''Hello'', ascii ''world'', ascii ''<eos>''])) \<and>
   last [ascii ''Hallo'', ascii ''Welt'', ascii ''<eos>''] = ascii ''<eos>'' \<and>
   last [ascii ''Hello'', ascii ''world'', ascii ''<eos>''] = ascii ''<eos>''"
proof -
  let ?g = "read_iwslt (literal ''train'') (ascii ''/data'') (ascii ''2016'') (ascii ''de-en'')
        (Some (ascii ''<eos>''))"
  let ?r = "gen_next sample_env ?g sample_world"
  have n: "?r = (Inr (Some ([ascii ''Hallo'', ascii ''Welt'', ascii ''<eos>''],
              [ascii ''Hello'', ascii ''world'', ascii ''<eos>''])), fst (snd ?r), snd (snd ?r))"
    using sample_first_yield by (metis prod.collapse)
  have g: "gen_eos ?g = Some (ascii ''<eos>'')"
    by (simp add: read_iwslt_def)
  from read_iwslt_appends_eos[of "literal ''train''" "ascii ''/data''" "ascii ''2016''"
      "ascii ''de-en''" "ascii ''<eos>''" ?g sample_env sample_world
      "[ascii ''Hallo'', ascii ''Welt'', ascii ''<eos>'']"
      "[ascii ''Hello'', ascii ''world'', ascii ''<eos>'']" "fst (snd ?r)" "snd (snd ?r)"
      "[]" sample_world] g n sample_first_yield
  show ?thesis
    by blast
qed

text \<open>
  C8. For a split whose two files exist, \<open>list\<close> on the generator of \<open>read_iwslt\<close> returns
  the results of the loop body on the lines of the two files taken in lockstep, pair by
  pair (\<open>zip\<close>), which ends with the shorter file: the pairs considered are as many as
  the shorter file has lines, and the pairs yielded are no more.
\<close>

theorem read_iwslt_lockstep:
  assumes "split \<in> {literal ''train'', literal ''dev'', literal ''test''}"
    and "split_lines e w split path year langpair = Some (ss, ts)"
  shows "drain e (read_iwslt split path year langpair eos) w =
           (Inr (List.map_filter (\<lambda>(src_l, tgt_l). loop_body (split = literal ''train'') eos src_l tgt_l)
                   (zip ss ts)),
            after_read w) \<and>
         length (zip ss ts) = min (length ss) (length ts) \<and>
         length (List.map_filter (\<lambda>(src_l, tgt_l). loop_body (split = literal ''train'') eos src_l tgt_l)
                   (zip ss ts)) \<le> min (length ss) (length ts)"
proof -
  let ?pairs = "List.map_filter
      (\<lambda>(src_l, tgt_l). loop_body (split = literal ''train'') eos src_l tgt_l) (zip ss ts)"
  have "length ?pairs \<le> length (zip ss ts)"
    by (rule length_map_filter_le)
  then have le: "length ?pairs \<le> min (length ss) (length ts)"
    by (simp only: length_zip)
  have dr: "drain e (read_iwslt split path year langpair eos) w = (Inr ?pairs, after_read w)"
    using drain_read_iwslt[OF assms, of eos] by (simp add: pairs_of_def)
  show ?thesis
    by (intro conjI, rule dr, rule length_zip, rule le)
qed

theorem read_iwslt_lockstep_witness:
  "literal ''test'' \<in> {literal ''train'', literal ''dev'', literal ''test''} \<and>
   split_lines sample_env sample_world (literal ''test'') (ascii ''/data'') (ascii ''2016'')
     (ascii ''de-en'') = Some (test_de, test_en) \<and>
   length test_de = 1 \<and> length test_en = 2 \<and>
   drain sample_env
     (read_iwslt (literal ''test'') (ascii ''/data'') (ascii ''2016'') (ascii ''de-en'') None)
     sample_world =
     (Inr [([ascii ''ja''], [ascii ''yes''])], after_read sample_world)"
  using read_iwslt_lockstep[of "literal ''test''" sample_env sample_world "ascii ''/data''"
      "ascii ''2016''" "ascii ''de-en''" test_de test_en None] sample_test sample_test_pairs
  by (simp add: pairs_of_def literal_def ascii_def test_de_def test_en_def)

text \<open>
  C9 does not hold of the code. The two calls of \<open>close\<close> stand after the loop and nothing
  guards them. When the target file cannot be opened, the first \<open>next\<close> raises and leaves
  the source file object, which it had just made, open. When the consumer stops after
  the first pair and the generator is closed, both file objects are left open, each with
  the lines it had not yet given out. (By \<open>resume_finishes_closed\<close> both are closed when the
  loop runs to its end.)
\<close>

theorem read_iwslt_leaves_files_open:
  "fst (gen_next sample_env
     (read_iwslt (literal ''train'') (ascii ''/data'') (ascii ''2016'') (ascii ''de-en'') None)
     no_target_world) =
     Inl (FileNotFoundError (ascii ''/data/iwslt2016.de-en/de-en/train.tags.de-en.en'')) \<and>
   handles no_target_world 0 = None \<and>
   handles (snd (snd (gen_next sample_env
     (read_iwslt (literal ''train'') (ascii ''/data'') (ascii ''2016'') (ascii ''de-en'') None)
     no_target_world))) 0 = Some train_de \<and>
   (case gen_next sample_env
      (read_iwslt (literal ''train'') (ascii ''/data'') (ascii ''2016'') (ascii ''de-en'') None)
      sample_world of
      (r, g, w) \<Rightarrow>
        r = Inr (Some ([ascii ''Hallo'', ascii ''Welt''], [ascii ''Hello'', ascii ''world''])) \<and>
        handles (snd (gen_close g w)) 0 = Some (drop 2 train_de) \<and>
        handles (snd (gen_close g w)) 1 = Some (drop 2 train_en))"
  by (simp add: step_defs body_defs sample_defs no_target_world_def gen_close_def)

text \<open>
  C10. Every pair a generator of \<open>read_iwslt\<close> yields (at any \<open>next\<close>, and in the list
  \<open>list\<close> makes) consists of two token lists that are, up to the end-of-sequence token
  appended when one was given, lists of non-empty strings without whitespace
  characters. A line of whitespace only gives no token: its token list is empty, or
  holds the end-of-sequence token alone, and in the train split such a line is not
  skipped.
\<close>

theorem read_iwslt_tokens_clean:
  "(gen_next e g w = (Inr (Some (src_l, tgt_l)), g', w') \<longrightarrow>
      (\<exists>src_toks tgt_toks.
         src_l = append_eos (gen_eos g) src_toks \<and> tgt_l = append_eos (gen_eos g) tgt_toks \<and>
         (\<forall>tok \<in> set src_toks \<union> set tgt_toks. tok \<noteq> [] \<and> (\<forall>c \<in> set tok. \<not> isspace c)))) \<and>
   (drain e g w = (Inr pairs, w'') \<longrightarrow>
      (\<forall>(a, b) \<in> set pairs.
         \<exists>src_toks tgt_toks.
           a = append_eos (gen_eos g) src_toks \<and> b = append_eos (gen_eos g) tgt_toks \<and>
           (\<forall>tok \<in> set src_toks \<union> set tgt_toks. tok \<noteq> [] \<and> (\<forall>c \<in> set tok. \<not> isspace c)))) \<and>
   ((\<forall>c \<in> set l. isspace c) \<longrightarrow>
      tokens eos l = append_eos eos [] \<and>
      loop_body True eos l t = Some (append_eos eos [], tokens eos t))"
proof (intro conjI impI)
  assume n: "gen_next e g w = (Inr (Some (src_l, tgt_l)), g', w')"
  from gen_next_yield_body[OF n] obtain is_train s t where
    "loop_body is_train (gen_eos g) s t = Some (src_l, tgt_l)"
    by blast
  then show "\<exists>src_toks tgt_toks.
         src_l = append_eos (gen_eos g) src_toks \<and> tgt_l = append_eos (gen_eos g) tgt_toks \<and>
         (\<forall>tok \<in> set src_toks \<union> set tgt_toks. tok \<noteq> [] \<and> (\<forall>c \<in> set tok. \<not> isspace c))"
    by (rule loop_body_clean)
next
  assume d: "drain e g w = (Inr pairs, w'')"
  show "\<forall>(a, b) \<in> set pairs.
         \<exists>src_toks tgt_toks.
           a = append_eos (gen_eos g) src_toks \<and> b = append_eos (gen_eos g) tgt_toks \<and>
           (\<forall>tok \<in> set src_toks \<union> set tgt_toks. tok \<noteq> [] \<and> (\<forall>c \<in> set tok. \<not> isspace c))"
  proof (clarify)
    fix a b
    assume "(a, b) \<in> set pairs"
    from drain_yield_body[OF d this] obtain is_train s t where
      "loop_body is_train (gen_eos g) s t = Some (a, b)"
      by blast
    then show "\<exists>src_toks tgt_toks.
           a = append_eos (gen_eos g) src_toks \<and> b = append_eos (gen_eos g) tgt_toks \<and>
           (\<forall>tok \<in> set src_toks \<union> set tgt_toks. tok \<noteq> [] \<and> (\<forall>c \<in> set tok. \<not> isspace c))"
      by (rule loop_body_clean)
  qed
next
  assume sp: "\<forall>c \<in> set l. isspace c"
  then show "tokens eos l = append_eos eos []"
    by (rule tokens_spaces)
  with spaces_not_meta[OF sp]
  show "loop_body True eos l t = Some (append_eos eos [], tokens eos t)"
    by (simp add: loop_body_def)
qed

theorem read_iwslt_tokens_clean_witness:
  "list_all isspace (ascii '' \<newline>'') \<and>
   tokens (Some (ascii ''<eos>'')) (ascii '' \<newline>'') = [ascii ''<eos>''] \<and>
   loop_body True (Some (ascii ''<eos>'')) (ascii '' \<newline>'') (ascii ''ok\<newline>'') =
     Some ([ascii ''<eos>''], [ascii ''ok'', ascii ''<eos>'']) \<and>
   fst (gen_next sample_env
     (read_iwslt (literal ''train'') (ascii ''/data'') (ascii ''2016'') (ascii ''de-en'')
        (Some (ascii ''<eos>'')))
     sample_world) =
   Inr (Some ([ascii ''Hallo'', ascii ''Welt'', ascii ''<eos>''],
              [ascii ''Hello'', ascii ''world'', ascii ''<eos>''])) \<and>
   (\<exists>src_toks tgt_toks.
      [ascii ''Hallo'', ascii ''Welt'', ascii ''<eos>''] =
        append_eos (Some (ascii ''<eos>'')) src_toks \<and>
      [ascii ''Hello'', ascii ''world'', ascii ''<eos>''] =
        append_eos (Some (ascii ''<eos>'')) tgt_toks \<and>
      list_all (\<lambda>tok. tok \<noteq> [] \<and> list_all (\<lambda>c. \<not> isspace c) tok) (src_toks @ tgt_toks))"
proof -
  let ?g = "read_iwslt (literal ''train'') (ascii ''/data'') (ascii ''2016'') (ascii ''de-en'')
        (Some (ascii ''<eos>''))"
  let ?r = "gen_next sample_env ?g sample_world"
  have n: "?r = (Inr (Some ([ascii ''Hallo'', ascii ''Welt'', ascii ''<eos>''],
              [ascii ''Hello'', ascii ''world'', ascii ''<eos>''])), fst (snd ?r), snd (snd ?r))"
    using sample_first_yield by (metis prod.collapse)
  have g: "gen_eos ?g = Some (ascii ''<eos>'')"
    by (simp add: read_iwslt_def)
  have sp: "\<forall>c \<in> set (ascii '' \<newline>''). isspace c"
    by (simp add: ascii_def isspace_def)
  from read_iwslt_tokens_clean[of sample_env ?g sample_world
      "[ascii ''Hallo'', ascii ''Welt'', ascii ''<eos>'']"
      "[ascii ''Hello'', ascii ''world'', ascii ''<eos>'']" "fst (snd ?r)" "snd (snd ?r)"
      "[]" sample_world "ascii '' \<newline>''" "Some (ascii ''<eos>'')" "ascii ''ok\<newline>''"]
  have "\<exists>src_toks tgt_toks.
      [ascii ''Hallo'', ascii ''Welt'', ascii ''<eos>''] =
        append_eos (Some (ascii ''<eos>'')) src_toks \<and>
      [ascii ''Hello'', ascii ''world'', ascii ''<eos>''] =
        append_eos (Some (ascii ''<eos>'')) tgt_toks \<and>
      (\<forall>tok \<in> set src_toks \<union> set tgt_toks. tok \<noteq> [] \<and> (\<forall>c \<in> set tok. \<not> isspace c))"
    and "tokens (Some (ascii ''<eos>'')) (ascii '' \<newline>'') = append_eos (Some (ascii ''<eos>'')) []"
    using n g sp by simp_all
  then show ?thesis
    using sample_first_yield sample_last_line sp
    by (auto simp: list_all_iff append_eos_def)
qed

end
